theory Spec2Isabelle
  imports Main "HOL-Library.Word" "HOL-Library.Signed_Division" "HOL-Library.Sublist"
begin

unbundle bit_operations_syntax

section \<open>Go values as package reflect sees them\<close>

text \<open>
  The library works on \<open>interface{}\<close> values through package reflect. A dynamic value
  is modelled by a datatype with one constructor for every runtime type that \<open>SetField\<close>
  inspects, constructors for struct values and pointers to structs, which the lookup of
  a field follows, and \<open>VOther\<close> for a value of any other type. Go compares types by
  identity, so \<open>TOther\<close> carries an identity token next to what \<open>Type.String()\<close> prints
  and the type's \<open>Kind\<close>; a struct type is a \<open>TOther\<close> of kind \<open>KStruct\<close>, and its
  fields are found in the table of struct types below. \<open>VNil\<close> is the nil interface, the
  only value for which \<open>reflect.ValueOf(v).IsValid()\<close> is false.
\<close>

type_synonym byte = "8 word"
type_synonym int32 = "32 word"
type_synonym int64 = "64 word"

datatype kind =
  KString | KInt32 | KUint32 | KInt64 | KUint64
  | KStruct | KPtr | KSlice | KArray | KMap | KInterface | KElse

datatype gotype =
  TString | TInt32 | TUint32 | TInt64 | TUint64
  | TTime | TBytes | TArr16 | TMapStringIface
  | TOther string string kind
  | TPtr gotype

text \<open>\<open>time.Time\<close> is the struct \<open>{wall uint64; ext int64; loc *Location}\<close>.\<close>

record gotime =
  wall :: int64
  ext :: int64
  loc :: "string option"

datatype arr16 =
  Arr16 byte byte byte byte byte byte byte byte byte byte byte byte byte byte byte byte

text \<open>
  \<open>VStruct t vs\<close> is a value of the struct type \<open>t\<close> with the values \<open>vs\<close> of its fields
  in declaration order. \<open>VPtr t p\<close> is a pointer of type \<open>*t\<close> to such a struct, with the
  field values of the struct it points to, or \<open>None\<close> when it is nil. A pointer is
  modelled by what it points to: two pointers to one struct are not.
\<close>

datatype gvalue =
  VNil
  | VString string
  | VInt32 int32
  | VUint32 int32
  | VInt64 int64
  | VUint64 int64
  | VTime gotime
  | VBytes "byte list"
  | VArr16 arr16
  | VMap "(string \<times> gvalue) list"
  | VOther string string kind nat
  | VStruct gotype "gvalue list"
  | VPtr gotype "gvalue list option"

fun Kind :: "gotype \<Rightarrow> kind" where
  "Kind TString = KString"
| "Kind TInt32 = KInt32"
| "Kind TUint32 = KUint32"
| "Kind TInt64 = KInt64"
| "Kind TUint64 = KUint64"
| "Kind TTime = KStruct"
| "Kind TBytes = KSlice"
| "Kind TArr16 = KArray"
| "Kind TMapStringIface = KMap"
| "Kind (TOther tid str k) = k"
| "Kind (TPtr t) = KPtr"

fun TypeString :: "gotype \<Rightarrow> string" where
  "TypeString TString = ''string''"
| "TypeString TInt32 = ''int32''"
| "TypeString TUint32 = ''uint32''"
| "TypeString TInt64 = ''int64''"
| "TypeString TUint64 = ''uint64''"
| "TypeString TTime = ''time.Time''"
| "TypeString TBytes = ''[]uint8''"
| "TypeString TArr16 = ''[16]uint8''"
| "TypeString TMapStringIface = ''map[string]interface {}''"
| "TypeString (TOther tid str k) = str"
| "TypeString (TPtr t) = CHR ''*'' # TypeString t"

text \<open>\<open>Type.Elem\<close> of a pointer type; \<open>None\<close> where the model does not know the element.\<close>

fun Elem :: "gotype \<Rightarrow> gotype option" where
  "Elem (TPtr t) = Some t"
| "Elem _ = None"

text \<open>\<open>reflect.TypeOf\<close>: \<open>None\<close> for the nil interface.\<close>

fun TypeOf :: "gvalue \<Rightarrow> gotype option" where
  "TypeOf VNil = None"
| "TypeOf (VString s) = Some TString"
| "TypeOf (VInt32 x) = Some TInt32"
| "TypeOf (VUint32 x) = Some TUint32"
| "TypeOf (VInt64 x) = Some TInt64"
| "TypeOf (VUint64 x) = Some TUint64"
| "TypeOf (VTime t) = Some TTime"
| "TypeOf (VBytes bs) = Some TBytes"
| "TypeOf (VArr16 a) = Some TArr16"
| "TypeOf (VMap m) = Some TMapStringIface"
| "TypeOf (VOther tid str k p) = Some (TOther tid str k)"
| "TypeOf (VStruct t vs) = Some t"
| "TypeOf (VPtr t p) = Some (TPtr t)"

datatype 'a outcome = Panic | Return 'a

section \<open>Struct types, structs and the objects handed to the accessors\<close>

text \<open>
  \<open>StructField\<close> is what reflect knows of a field of a struct type: its name, its type,
  whether it is exported (\<open>PkgPath == ""\<close>, which the compiler decides from the first
  letter of the name) and whether it is an embedded field. \<open>structs\<close> is the table of the
  program's struct types with their fields.
\<close>

record StructField =
  Name :: string
  Typ :: gotype
  Exported :: bool
  Anonymous :: bool

type_synonym structs = "(gotype \<times> StructField list) list"

definition Fields :: "structs \<Rightarrow> gotype \<Rightarrow> StructField list" where
  "Fields env t = (case map_of env t of Some fs \<Rightarrow> fs | None \<Rightarrow> [])"

text \<open>
  The struct handed to an accessor is the list of its fields in declaration order, each
  with what its type says of it and with its current value. The value of an embedded
  struct is a \<open>VStruct\<close> or a \<open>VPtr\<close>, whose own fields are described by \<open>structs\<close>.
\<close>

record field =
  fname :: string
  ftype :: gotype
  exported :: bool
  anonymous :: bool
  fval :: gvalue

type_synonym gostruct = "field list"

definition StructField_of :: "field \<Rightarrow> StructField" where
  "StructField_of f =
     \<lparr>Name = fname f, Typ = ftype f, Exported = exported f, Anonymous = anonymous f\<rparr>"

datatype obj =
  NilObj
  | StructObj gostruct
  | PtrObj gostruct
  | PtrElse
  | ElseObj

subsection \<open>Type.FieldByName\<close>

text \<open>The quick check for a top-level name: the first field of that name.\<close>

fun find_index_from :: "nat \<Rightarrow> string \<Rightarrow> StructField list \<Rightarrow> nat option" where
  "find_index_from i name [] = None"
| "find_index_from i name (f # fs) =
     (if Name f = name then Some i else find_index_from (Suc i) name fs)"

text \<open>
  \<open>FieldByNameFunc\<close> searches the embedded structs breadth first, one depth at a time.
  A \<open>fieldScan\<close> is a struct type to visit with the index sequence that leads to it; the
  struct handed to the accessor itself is the scan \<open>(None, [])\<close>. \<open>level\<close> is the state of
  the loops over one depth: the types visited so far, how often an embedded type was
  met at this depth (\<open>nextCount\<close>), the queue for the next depth, and the index
  sequence of the match, if any.
\<close>

type_synonym fieldScan = "gotype option \<times> nat list"

record level =
  visited :: "gotype option list"
  nextCount :: "(gotype \<times> nat) list"
  nextScans :: "fieldScan list"
  matched :: "nat list option"

definition count_of :: "(gotype \<times> nat) list \<Rightarrow> gotype option \<Rightarrow> nat" where
  "count_of count t =
     (case t of None \<Rightarrow> 0
      | Some st \<Rightarrow> (case map_of count st of None \<Rightarrow> 0 | Some n \<Rightarrow> n))"

text \<open>
  The struct type that an embedded field of type \<open>T\<close> or \<open>*T\<close> brings in; \<open>None\<close> for a
  field that is not embedded or whose type behind the pointer is not a struct.
\<close>

definition embedded_struct :: "StructField \<Rightarrow> gotype option" where
  "embedded_struct f =
     (if Anonymous f
      then (case (if Kind (Typ f) = KPtr then Elem (Typ f) else Some (Typ f)) of
              None \<Rightarrow> None
            | Some ntyp \<Rightarrow> if Kind ntyp = KStruct then Some ntyp else None)
      else None)"

text \<open>
  The loop over the fields of one struct type, field \<open>i\<close> first. \<open>None\<close> is the early
  \<open>return StructField{}, false\<close>: the name appeared twice at this depth.
\<close>

fun scan_fields :: "string \<Rightarrow> nat \<Rightarrow> nat list \<Rightarrow> nat \<Rightarrow> StructField list \<Rightarrow> level \<Rightarrow> level option" where
  "scan_fields name cnt idx i [] st = Some st"
| "scan_fields name cnt idx i (f # fs) st =
     (if Name f = name then
        (if cnt > 1 \<or> matched st \<noteq> None then None
         else scan_fields name cnt idx (Suc i) fs (st\<lparr>matched := Some (idx @ [i])\<rparr>))
      else
        (case embedded_struct f of
           None \<Rightarrow> scan_fields name cnt idx (Suc i) fs st
         | Some styp \<Rightarrow>
             if matched st \<noteq> None then scan_fields name cnt idx (Suc i) fs st
             else if count_of (nextCount st) (Some styp) > 0
             then scan_fields name cnt idx (Suc i) fs
                    (st\<lparr>nextCount := (styp, 2) # nextCount st\<rparr>)
             else scan_fields name cnt idx (Suc i) fs
                    (st\<lparr>nextCount := (styp, if cnt > 1 then 2 else 1) # nextCount st,
                        nextScans := nextScans st @ [(Some styp, idx @ [i])]\<rparr>)))"

text \<open>The fields of the type of a scan: \<open>root\<close> for the struct itself.\<close>

definition scan_fields_of :: "structs \<Rightarrow> StructField list \<Rightarrow> gotype option \<Rightarrow> StructField list" where
  "scan_fields_of env root t = (case t of None \<Rightarrow> root | Some st \<Rightarrow> Fields env st)"

text \<open>The loop over the scans of one depth; a type visited before is skipped.\<close>

fun scan_level ::
  "structs \<Rightarrow> StructField list \<Rightarrow> string \<Rightarrow> (gotype \<times> nat) list \<Rightarrow> fieldScan list \<Rightarrow> level
     \<Rightarrow> level option" where
  "scan_level env root name count [] st = Some st"
| "scan_level env root name count ((t, idx) # current) st =
     (if t \<in> set (visited st) then scan_level env root name count current st
      else
        (case scan_fields name (count_of count t) idx 0 (scan_fields_of env root t)
                (st\<lparr>visited := t # visited st\<rparr>) of
           None \<Rightarrow> None
         | Some st' \<Rightarrow> scan_level env root name count current st'))"

text \<open>
  The types that can ever be visited, and how many of them have not been: every depth
  that queues something visits a type for the first time, which is why the search ends.
\<close>

definition unvisited :: "structs \<Rightarrow> gotype option list \<Rightarrow> nat" where
  "unvisited env vis = length (filter (\<lambda>t. t \<notin> set vis) (None # map (Some \<circ> fst) env))"

text \<open>
  The loop over the depths: \<open>next\<close> becomes \<open>current\<close>, and the search ends when the
  queue is empty or a depth has produced a match.
\<close>

function bfs ::
  "structs \<Rightarrow> StructField list \<Rightarrow> string \<Rightarrow> gotype option list \<Rightarrow> (gotype \<times> nat) list
     \<Rightarrow> fieldScan list \<Rightarrow> nat list option" where
  "bfs env root name vis count current =
     (if current = [] then None
      else
        (case scan_level env root name count current
                \<lparr>visited = vis, nextCount = [], nextScans = [], matched = None\<rparr> of
           None \<Rightarrow> None
         | Some st \<Rightarrow>
             (case matched st of
                Some index \<Rightarrow> Some index
              | None \<Rightarrow> bfs env root name (visited st) (nextCount st) (nextScans st))))"
  by pat_completeness auto
termination
proof (relation "measures [\<lambda>(env, root, name, vis, count, current). unvisited env vis,
                           \<lambda>(env, root, name, vis, count, current). length current]")
  show "wf (measures [\<lambda>(env, root, name, vis, count, current). unvisited env vis,
                      \<lambda>(env, root, name, vis, count, current). length current])"
    by simp
next
  fix env :: structs and root :: "StructField list" and name :: string
    and vis :: "gotype option list" and count :: "(gotype \<times> nat) list"
    and current :: "fieldScan list" and st :: level
  assume cur: "current \<noteq> []"
    and lev: "scan_level env root name count current
                \<lparr>visited = vis, nextCount = [], nextScans = [], matched = None\<rparr> = Some st"
  have fields_vis: "visited s' = visited s \<and> length (nextScans s) \<le> length (nextScans s')
                    \<and> (fs = [] \<longrightarrow> nextScans s' = nextScans s)"
    if "scan_fields name c idx i fs s = Some s'" for c idx i fs s s'
    using that
  proof (induction fs arbitrary: i s)
    case Nil
    then show ?case by simp
  next
    case (Cons f fs)
    show ?case
    proof (cases "Name f = name")
      case True
      with Cons.prems have
        "scan_fields name c idx (Suc i) fs (s\<lparr>matched := Some (idx @ [i])\<rparr>) = Some s'"
        by (simp split: if_splits)
      from Cons.IH [OF this] show ?thesis by simp
    next
      case False
      show ?thesis
      proof (cases "embedded_struct f")
        case None
        with False Cons.prems have "scan_fields name c idx (Suc i) fs s = Some s'" by simp
        from Cons.IH [OF this] show ?thesis by simp
      next
        case (Some styp)
        with False Cons.prems consider
          (a) "scan_fields name c idx (Suc i) fs s = Some s'"
          | (b) "scan_fields name c idx (Suc i) fs (s\<lparr>nextCount := (styp, 2) # nextCount s\<rparr>) = Some s'"
          | (c) "scan_fields name c idx (Suc i) fs
                   (s\<lparr>nextCount := (styp, if c > 1 then 2 else 1) # nextCount s,
                      nextScans := nextScans s @ [(Some styp, idx @ [i])]\<rparr>) = Some s'"
          by (auto split: if_splits)
        then show ?thesis
        proof cases
          case a
          from Cons.IH [OF this] show ?thesis by simp
        next
          case b
          from Cons.IH [OF this] show ?thesis by simp
        next
          case c
          from Cons.IH [OF this] show ?thesis by simp
        qed
      qed
    qed
  qed
  have drop: "unvisited env (t # v) \<le> unvisited env v" for t v
    unfolding unvisited_def
  proof -
    have "filter (\<lambda>x. x \<notin> set (t # v)) xs = filter (\<lambda>x. x \<noteq> t) (filter (\<lambda>x. x \<notin> set v) xs)"
      for xs :: "gotype option list"
      by (induction xs) auto
    then show "length (filter (\<lambda>x. x \<notin> set (t # v)) (None # map (Some \<circ> fst) env))
                 \<le> length (filter (\<lambda>x. x \<notin> set v) (None # map (Some \<circ> fst) env))"
      by (simp only: length_filter_le)
  qed
  have strict: "unvisited env (t # v) < unvisited env v"
    if "t \<notin> set v" and "t \<in> set (None # map (Some \<circ> fst) env)" for t v
  proof -
    have eq: "filter (\<lambda>x. x \<notin> set (t # v)) xs = filter (\<lambda>x. x \<noteq> t) (filter (\<lambda>x. x \<notin> set v) xs)"
      for xs :: "gotype option list"
      by (induction xs) auto
    from that have "t \<in> set (filter (\<lambda>x. x \<notin> set v) (None # map (Some \<circ> fst) env))"
      by auto
    then have "length (filter (\<lambda>x. x \<noteq> t) (filter (\<lambda>x. x \<notin> set v) (None # map (Some \<circ> fst) env)))
                 < length (filter (\<lambda>x. x \<notin> set v) (None # map (Some \<circ> fst) env))"
      by (intro length_filter_less [of t]) simp_all
    then show ?thesis unfolding unvisited_def by (simp only: eq)
  qed
  have empty_fields: "scan_fields_of env root t = []"
    if "t \<notin> set (None # map (Some \<circ> fst) env)" for t
  proof (cases t)
    case None
    with that show ?thesis by simp
  next
    case (Some k)
    with that have "k \<notin> fst ` set env" by auto
    then have "map_of env k = None" by (simp add: map_of_eq_None_iff)
    with Some show ?thesis by (simp add: scan_fields_of_def Fields_def)
  qed
  have level: "unvisited env (visited s') \<le> unvisited env (visited s)
               \<and> (unvisited env (visited s') = unvisited env (visited s)
                    \<longrightarrow> nextScans s' = nextScans s)"
    if "scan_level env root name count cs s = Some s'" for cs s s'
    using that
  proof (induction cs arbitrary: s)
    case Nil
    then show ?case by simp
  next
    case (Cons c cs)
    obtain t idx where c: "c = (t, idx)" by (cases c) auto
    show ?case
    proof (cases "t \<in> set (visited s)")
      case True
      with Cons.prems c have "scan_level env root name count cs s = Some s'" by simp
      from Cons.IH [OF this] show ?thesis .
    next
      case False
      with Cons.prems c obtain s1 where
        f: "scan_fields name (count_of count t) idx 0 (scan_fields_of env root t)
              (s\<lparr>visited := t # visited s\<rparr>) = Some s1"
        and r: "scan_level env root name count cs s1 = Some s'"
        by (auto split: option.splits)
      from fields_vis [OF f] have v1: "visited s1 = t # visited s"
        and n1: "scan_fields_of env root t = [] \<longrightarrow> nextScans s1 = nextScans s"
        by simp_all
      note ih = Cons.IH [OF r]
      show ?thesis
      proof (cases "t \<in> set (None # map (Some \<circ> fst) env)")
        case True
        from strict [OF False True] v1 have "unvisited env (visited s1) < unvisited env (visited s)"
          by simp
        with ih show ?thesis by simp
      next
        case nt: False
        from empty_fields [OF nt] n1 have "nextScans s1 = nextScans s" by simp
        moreover from drop [of t "visited s"] v1
        have "unvisited env (visited s1) \<le> unvisited env (visited s)" by simp
        ultimately show ?thesis using ih by auto
      qed
    qed
  qed
  from level [OF lev]
  have le: "unvisited env (visited st) \<le> unvisited env vis"
    and eq: "unvisited env (visited st) = unvisited env vis \<longrightarrow> nextScans st = []"
    by simp_all
  show "((env, root, name, visited st, nextCount st, nextScans st),
         (env, root, name, vis, count, current))
        \<in> measures [\<lambda>(env, root, name, vis, count, current). unvisited env vis,
                     \<lambda>(env, root, name, vis, count, current). length current]"
    using le eq cur by (cases "unvisited env (visited st) = unvisited env vis") auto
qed

declare bfs.simps [simp del]

definition FieldByNameFunc :: "structs \<Rightarrow> StructField list \<Rightarrow> string \<Rightarrow> nat list option" where
  "FieldByNameFunc env root name = bfs env root name [] [] [(None, [])]"

text \<open>
  \<open>Type.FieldByName\<close>: the first top-level field of that name; the empty name is never
  found; the breadth-first search runs only when the struct has an embedded field.
\<close>

definition Type_FieldByName :: "structs \<Rightarrow> StructField list \<Rightarrow> string \<Rightarrow> nat list option" where
  "Type_FieldByName env root name =
     (if name = [] then None
      else
        (case find_index_from 0 name root of
           Some i \<Rightarrow> Some [i]
         | None \<Rightarrow>
             if list_ex Anonymous root then FieldByNameFunc env root name else None))"

definition FieldByName :: "structs \<Rightarrow> gostruct \<Rightarrow> string \<Rightarrow> nat list option" where
  "FieldByName env s name = Type_FieldByName env (map StructField_of s) name"

subsection \<open>Value.FieldByIndex\<close>

text \<open>
  What the accessors use of the \<open>reflect.Value\<close> of a field: its declared type, whether
  it is free of the read-only flag that reflect puts on unexported fields, and its
  current value. The flag of an unexported embedded field is dropped by the next
  \<open>Field\<close>, so it is the last field of the index sequence that decides.
\<close>

record fieldValue =
  rtype :: gotype
  rexported :: bool
  rvalue :: gvalue

text \<open>
  The struct behind a value on the way: the fields of a struct value, or of the struct
  an embedded pointer points to; \<open>None\<close> is the panic on a nil pointer or on a value that
  is not a struct.
\<close>

fun struct_behind :: "gvalue \<Rightarrow> (gotype \<times> gvalue list) option" where
  "struct_behind (VStruct t vs) = Some (t, vs)"
| "struct_behind (VPtr t (Some vs)) = Some (t, vs)"
| "struct_behind _ = None"

fun descend :: "structs \<Rightarrow> gvalue \<Rightarrow> nat list \<Rightarrow> fieldValue outcome" where
  "descend env v [] = Panic"
| "descend env v (x # rest) =
     (case struct_behind v of
        None \<Rightarrow> Panic
      | Some (t, vs) \<Rightarrow>
          if x < length (Fields env t) \<and> x < length vs
          then (if rest = []
                then Return \<lparr>rtype = Typ (Fields env t ! x),
                             rexported = Exported (Fields env t ! x),
                             rvalue = vs ! x\<rparr>
                else descend env (vs ! x) rest)
          else Panic)"

text \<open>\<open>FieldByName\<close> never returns the empty index sequence; it is a panic here.\<close>

fun FieldByIndex :: "structs \<Rightarrow> gostruct \<Rightarrow> nat list \<Rightarrow> fieldValue outcome" where
  "FieldByIndex env s [] = Panic"
| "FieldByIndex env s (i # rest) =
     (if i < length s
      then (if rest = []
            then Return \<lparr>rtype = ftype (s ! i), rexported = exported (s ! i), rvalue = fval (s ! i)\<rparr>
            else descend env (fval (s ! i)) rest)
      else Panic)"

text \<open>The struct after \<open>Value.Set\<close> on the field that an index sequence leads to.\<close>

fun set_in :: "gvalue \<Rightarrow> nat list \<Rightarrow> gvalue \<Rightarrow> gvalue" where
  "set_in v [] val = val"
| "set_in (VStruct t vs) (x # rest) val = VStruct t (vs[x := set_in (vs ! x) rest val])"
| "set_in (VPtr t (Some vs)) (x # rest) val = VPtr t (Some (vs[x := set_in (vs ! x) rest val]))"
| "set_in v (x # rest) val = v"

fun set_at :: "gostruct \<Rightarrow> nat list \<Rightarrow> gvalue \<Rightarrow> gostruct" where
  "set_at s [] val = s"
| "set_at s (i # rest) val = s[i := (s ! i)\<lparr>fval := set_in (fval (s ! i)) rest val\<rparr>]"

text \<open>
  A field reached through a pointer is addressable, so \<open>CanSet\<close> is decided by the
  read-only flag.
\<close>

definition CanSet :: "fieldValue \<Rightarrow> bool" where
  "CanSet f = rexported f"

section \<open>Results, errors, the process state and the libraries called\<close>

datatype error =
  NonStructInterface
  | NoSuchField string
  | CannotSetField string
  | TypeMismatch string gotype gotype
  | MarshalError string
  | EfieldNameCountNotEqualToFieldValues

fun Error :: "error \<Rightarrow> string" where
  "Error NonStructInterface = ''cannot use GetField on a non-struct interface''"
| "Error (NoSuchField name) = ''no such field: '' @ name @ '' in obj''"
| "Error (CannotSetField name) = ''cannot set '' @ name @ '' field value''"
| "Error (TypeMismatch name ft vt) =
     name @ '': value type didn'' @ [CHR 0x27] @ ''t match obj field type ''
       @ TypeString ft @ '':'' @ TypeString vt"
| "Error (MarshalError msg) = msg"
| "Error EfieldNameCountNotEqualToFieldValues = ''field name count not equal to field values''"

text \<open>
  The package variable \<open>WarnInt2StrInSetField\<close> and the lines written by
  \<open>fmt.Println\<close> are the only state outside the struct.
\<close>

record world =
  WarnInt2StrInSetField :: bool
  stdout :: "string list"

definition Println :: "string list \<Rightarrow> world \<Rightarrow> world" where
  "Println args w = w\<lparr>stdout := stdout w @ [concat (map (\<lambda>a. a @ '' '') (butlast args)) @ last args]\<rparr>"

text \<open>
  The functions of the standard library whose results the code only passes on are
  parameters: \<open>Time.Format\<close>, \<open>json.Marshal\<close> (\<open>Inl\<close> the error text) and
  \<open>time.Parse\<close>.
\<close>

record golib =
  time_Format :: "gotime \<Rightarrow> string \<Rightarrow> string"
  json_Marshal :: "gvalue \<Rightarrow> string + string"
  time_Parse :: "string \<Rightarrow> string \<Rightarrow> string + gotime"

section \<open>timeutil.go\<close>

definition ISOTimeFormat :: string where
  "ISOTimeFormat = ''2006-01-02 15:04:05''"

definition TimeISOStr :: "golib \<Rightarrow> gotime \<Rightarrow> string" where
  "TimeISOStr lib t = time_Format lib t ISOTimeFormat"

definition zero_Time :: gotime where
  "zero_Time = \<lparr>wall = 0, ext = 0, loc = None\<rparr>"

definition ParseUTCTime :: "golib \<Rightarrow> string \<Rightarrow> gotime" where
  "ParseUTCTime lib timeStr =
     (case time_Parse lib ISOTimeFormat timeStr of
        Inr result \<Rightarrow> result
      | Inl err \<Rightarrow> zero_Time)"

section \<open>Library functions modelled in full\<close>

subsection \<open>strconv and fmt\<close>

definition digit_char :: "nat \<Rightarrow> char" where
  "digit_char d = ''0123456789'' ! d"

fun digits :: "nat \<Rightarrow> string" where
  "digits n = (if n < 10 then [digit_char n] else digits (n div 10) @ [digit_char (n mod 10)])"

declare digits.simps [simp del]

definition FormatInt :: "int \<Rightarrow> string" where
  "FormatInt i = (if i < 0 then CHR ''-'' # digits (nat (- i)) else digits (nat i))"

text \<open>
  The verb \<open>%02d\<close>: fmt takes the width as the number of digits, one less when a sign
  is printed, and fills with zeros on the left.
\<close>

definition Sprintf_02d :: "int \<Rightarrow> string" where
  "Sprintf_02d i =
     (let ds = digits (nat \<bar>i\<bar>);
          prec = (if i < 0 then 1 else 2 :: nat)
      in (if i < 0 then ''-'' else '''') @ replicate (prec - length ds) CHR ''0'' @ ds)"

definition Sprintf_clock :: "int \<Rightarrow> int \<Rightarrow> int \<Rightarrow> string" where
  "Sprintf_clock h m s = Sprintf_02d h @ '':'' @ Sprintf_02d m @ '':'' @ Sprintf_02d s"

subsection \<open>strings.Contains\<close>

fun Contains :: "string \<Rightarrow> string \<Rightarrow> bool" where
  "Contains [] substr = (substr = [])"
| "Contains (c # cs) substr = (prefix substr (c # cs) \<or> Contains cs substr)"

subsection \<open>Signed 64-bit division\<close>

text \<open>Go's \<open>/\<close> on \<open>int64\<close> truncates towards zero; the result is again 64 bits wide.\<close>

definition int64_quo :: "int64 \<Rightarrow> int64 \<Rightarrow> int64" where
  "int64_quo a b = word_of_int (sint a sdiv sint b)"

subsection \<open>hex.Encode and uuid.UUID.String\<close>

definition hextable :: string where
  "hextable = ''0123456789abcdef''"

fun hex_Encode :: "byte list \<Rightarrow> string" where
  "hex_Encode [] = []"
| "hex_Encode (v # src) =
     hextable ! unat (drop_bit 4 v) # hextable ! unat (v AND 0x0f) # hex_Encode src"

fun arr16_list :: "arr16 \<Rightarrow> byte list" where
  "arr16_list (Arr16 b0 b1 b2 b3 b4 b5 b6 b7 b8 b9 b10 b11 b12 b13 b14 b15) =
     [b0, b1, b2, b3, b4, b5, b6, b7, b8, b9, b10, b11, b12, b13, b14, b15]"

text \<open>
  \<open>encodeHex\<close> of github.com/google/uuid fills a 36-byte buffer: the hex of bytes 0-3,
  4-5, 6-7, 8-9 and 10-15 with \<open>'-'\<close> at offsets 8, 13, 18 and 23.
\<close>

definition UUID_String :: "arr16 \<Rightarrow> string" where
  "UUID_String u =
     (let b = arr16_list u in
        hex_Encode (take 4 b) @ ''-''
        @ hex_Encode (take 2 (drop 4 b)) @ ''-''
        @ hex_Encode (take 2 (drop 6 b)) @ ''-''
        @ hex_Encode (take 2 (drop 8 b)) @ ''-''
        @ hex_Encode (drop 10 b))"

definition string_of_bytes :: "byte list \<Rightarrow> string" where
  "string_of_bytes bs = map (\<lambda>b. char_of (unat b)) bs"


section \<open>The field accessors\<close>

subsection \<open>hasValidType and ReflectValue\<close>

text \<open>\<open>reflect.TypeOf(obj).Kind()\<close>: \<open>TypeOf\<close> of the nil interface is nil, and the call panics.\<close>

fun obj_Kind :: "obj \<Rightarrow> kind option" where
  "obj_Kind NilObj = None"
| "obj_Kind (StructObj s) = Some KStruct"
| "obj_Kind (PtrObj s) = Some KPtr"
| "obj_Kind PtrElse = Some KPtr"
| "obj_Kind ElseObj = Some KElse"

fun hasValidType :: "obj \<Rightarrow> kind list \<Rightarrow> bool outcome" where
  "hasValidType obj [] = Return False"
| "hasValidType obj (t # types) =
     (case obj_Kind obj of
        None \<Rightarrow> Panic
      | Some k \<Rightarrow> if k = t then Return True else hasValidType obj types)"

text \<open>
  \<open>ReflectValue\<close> follows a pointer once. The result is \<open>Some s\<close> when the
  \<open>reflect.Value\<close> reached is the struct \<open>s\<close>, and \<open>None\<close> when it is anything else
  (\<open>PtrElse\<close> is a nil pointer or a pointer to a non-struct).
\<close>

fun ReflectValue :: "obj \<Rightarrow> gostruct option outcome" where
  "ReflectValue NilObj = Panic"
| "ReflectValue (StructObj s) = Return (Some s)"
| "ReflectValue (PtrObj s) = Return (Some s)"
| "ReflectValue PtrElse = Return None"
| "ReflectValue ElseObj = Return None"

subsection \<open>GetField\<close>

text \<open>
  \<open>Value.FieldByName\<close> panics on a value that is not a struct; it looks the name up in
  the struct's type and walks the index sequence found. \<open>Value.Interface\<close> panics on a
  value obtained from an unexported field.
\<close>

definition GetField :: "structs \<Rightarrow> obj \<Rightarrow> string \<Rightarrow> (error + gvalue) outcome" where
  "GetField env obj name =
     (case hasValidType obj [KStruct, KPtr] of
        Panic \<Rightarrow> Panic
      | Return False \<Rightarrow> Return (Inl NonStructInterface)
      | Return True \<Rightarrow>
          (case ReflectValue obj of
             Panic \<Rightarrow> Panic
           | Return None \<Rightarrow> Panic
           | Return (Some objValue) \<Rightarrow>
               (case FieldByName env objValue name of
                  None \<Rightarrow> Return (Inl (NoSuchField name))
                | Some index \<Rightarrow>
                    (case FieldByIndex env objValue index of
                       Panic \<Rightarrow> Panic
                     | Return field \<Rightarrow>
                         if rexported field then Return (Inr (rvalue field)) else Panic))))"

subsection \<open>SetField\<close>

definition microsecondsPerSecond :: int64 where
  "microsecondsPerSecond = 1000000"

definition microsecondsPerMinute :: int64 where
  "microsecondsPerMinute = 60 * microsecondsPerSecond"

definition microsecondsPerHour :: int64 where
  "microsecondsPerHour = 60 * microsecondsPerMinute"

text \<open>The type assertions \<open>value.(T)\<close>: \<open>None\<close> is the panic of a failed assertion.\<close>

fun as_Time :: "gvalue \<Rightarrow> gotime option" where
  "as_Time (VTime t) = Some t"
| "as_Time _ = None"

fun as_bytes :: "gvalue \<Rightarrow> byte list option" where
  "as_bytes (VBytes bs) = Some bs"
| "as_bytes _ = None"

fun as_arr16 :: "gvalue \<Rightarrow> arr16 option" where
  "as_arr16 (VArr16 a) = Some a"
| "as_arr16 _ = None"

fun as_int32 :: "gvalue \<Rightarrow> int32 option" where
  "as_int32 (VInt32 x) = Some x"
| "as_int32 _ = None"

fun as_uint32 :: "gvalue \<Rightarrow> int32 option" where
  "as_uint32 (VUint32 x) = Some x"
| "as_uint32 _ = None"

fun as_int64 :: "gvalue \<Rightarrow> int64 option" where
  "as_int64 (VInt64 x) = Some x"
| "as_int64 _ = None"

fun as_uint64 :: "gvalue \<Rightarrow> int64 option" where
  "as_uint64 (VUint64 x) = Some x"
| "as_uint64 _ = None"

text \<open>
  The microseconds-since-midnight rendering, with the 64-bit arithmetic of the source:
  each quotient is subtracted from \<open>usec\<close> before the next division.
\<close>

definition clock_of_usec :: "int64 \<Rightarrow> string" where
  "clock_of_usec usec0 =
     (let hours = int64_quo usec0 microsecondsPerHour;
          usec1 = usec0 - hours * microsecondsPerHour;
          minutes = int64_quo usec1 microsecondsPerMinute;
          usec2 = usec1 - minutes * microsecondsPerMinute;
          seconds = int64_quo usec2 microsecondsPerSecond
      in Sprintf_clock (sint hours) (sint minutes) (sint seconds))"

text \<open>
  Where the switch over the field's kind and the value's type leaves \<open>SetField\<close>:
  at the label \<open>SETVALUE\<close> with a new \<open>val\<close>, by \<open>return err\<close>, past the switch with
  no case taken, or by a panic.
\<close>

datatype exit = SETVALUE gvalue world | ReturnErr error world | NoCase | Panics

definition switch_String :: "golib \<Rightarrow> world \<Rightarrow> string \<Rightarrow> gotype \<Rightarrow> gvalue \<Rightarrow> exit" where
  "switch_String lib w name valType v =
     (let ts = TypeString valType in
      if ts = ''time.Time'' then
        (case as_Time v of
           None \<Rightarrow> Panics
         | Some valTime \<Rightarrow> SETVALUE (VString (TimeISOStr lib valTime)) w)
      else if ts = ''[]uint8'' then
        (case as_bytes v of
           None \<Rightarrow> Panics
         | Some valUuid \<Rightarrow> SETVALUE (VString (string_of_bytes valUuid)) w)
      else if ts = ''[16]uint8'' then
        (case as_arr16 v of
           None \<Rightarrow> Panics
         | Some uuid16 \<Rightarrow> SETVALUE (VString (UUID_String uuid16)) w)
      else if ts = ''map[string]interface {}'' then
        (case json_Marshal lib v of
           Inl err \<Rightarrow> ReturnErr (MarshalError err) w
         | Inr b \<Rightarrow> SETVALUE (VString b) w)
      else if ts = ''int32'' then
        (let w' = (if WarnInt2StrInSetField w
                   then Println [''setfield to string warn:'', name, ts] w else w)
         in case as_int32 v of
              None \<Rightarrow> Panics
            | Some v32 \<Rightarrow> SETVALUE (VString (FormatInt (sint v32))) w')
      else if ts = ''int64'' then
        (case as_int64 v of
           None \<Rightarrow> Panics
         | Some usec \<Rightarrow>
             if Contains name ''Time'' \<or> Contains name ''time''
             then SETVALUE (VString (clock_of_usec usec)) w
             else SETVALUE (VString (FormatInt (sint usec))) w)
      else NoCase)"

definition switch_Int32 :: "world \<Rightarrow> gotype \<Rightarrow> gvalue \<Rightarrow> exit" where
  "switch_Int32 w valType v =
     (case Kind valType of
        KUint32 \<Rightarrow>
          (case as_uint32 v of None \<Rightarrow> Panics
           | Some valU32 \<Rightarrow> SETVALUE (VInt32 (ucast valU32)) w)
      | KInt64 \<Rightarrow>
          (case as_int64 v of None \<Rightarrow> Panics
           | Some valI64 \<Rightarrow> SETVALUE (VInt32 (scast valI64)) w)
      | KUint64 \<Rightarrow>
          (case as_uint64 v of None \<Rightarrow> Panics
           | Some valU64 \<Rightarrow> SETVALUE (VInt32 (ucast valU64)) w)
      | _ \<Rightarrow> NoCase)"

definition switch_Uint32 :: "world \<Rightarrow> gotype \<Rightarrow> gvalue \<Rightarrow> exit" where
  "switch_Uint32 w valType v =
     (case Kind valType of
        KInt32 \<Rightarrow>
          (case as_int32 v of None \<Rightarrow> Panics
           | Some valI32 \<Rightarrow> SETVALUE (VUint32 (scast valI32)) w)
      | KInt64 \<Rightarrow>
          (case as_int64 v of None \<Rightarrow> Panics
           | Some valI64 \<Rightarrow> SETVALUE (VUint32 (scast valI64)) w)
      | KUint64 \<Rightarrow>
          (case as_uint64 v of None \<Rightarrow> Panics
           | Some valU64 \<Rightarrow> SETVALUE (VUint32 (ucast valU64)) w)
      | _ \<Rightarrow> NoCase)"

definition coercion_switch :: "golib \<Rightarrow> world \<Rightarrow> string \<Rightarrow> gotype \<Rightarrow> gotype \<Rightarrow> gvalue \<Rightarrow> exit" where
  "coercion_switch lib w name structFieldType valType v =
     (case Kind structFieldType of
        KString \<Rightarrow> switch_String lib w name valType v
      | KInt32 \<Rightarrow> switch_Int32 w valType v
      | KUint32 \<Rightarrow> switch_Uint32 w valType v
      | _ \<Rightarrow> NoCase)"

text \<open>
  \<open>Value.Set\<close> stores \<open>val\<close> when its type is the field's type and panics otherwise
  (every \<open>val\<close> that reaches it has a defined, non-interface type, which is assignable
  to an identical type only).
\<close>

definition Set_field ::
  "gostruct \<Rightarrow> nat list \<Rightarrow> gotype \<Rightarrow> gvalue \<Rightarrow> world \<Rightarrow> (error option \<times> obj \<times> world) outcome" where
  "Set_field s index structFieldType val w =
     (if TypeOf val = Some structFieldType
      then Return (None, PtrObj (set_at s index val), w)
      else Panic)"

text \<open>
  \<open>SetField\<close> returns the error (\<open>None\<close> is nil), the object with the struct it points
  to after the call, and the process state. \<open>reflect.ValueOf(obj).Elem()\<close> followed by
  \<open>FieldByName\<close> panics unless \<open>obj\<close> is a non-nil pointer to a struct, and
  \<open>FieldByName\<close> panics on the way through a nil embedded pointer.
\<close>

definition SetField ::
  "structs \<Rightarrow> golib \<Rightarrow> world \<Rightarrow> obj \<Rightarrow> string \<Rightarrow> gvalue \<Rightarrow> (error option \<times> obj \<times> world) outcome" where
  "SetField env lib w obj name v =
     (case TypeOf v of
        None \<Rightarrow> Return (None, obj, w)
      | Some valType \<Rightarrow>
          (case obj of
             PtrObj structValue \<Rightarrow>
               (case FieldByName env structValue name of
                  None \<Rightarrow> Return (Some (NoSuchField name), obj, w)
                | Some index \<Rightarrow>
                    (case FieldByIndex env structValue index of
                       Panic \<Rightarrow> Panic
                     | Return structFieldValue \<Rightarrow>
                         if \<not> CanSet structFieldValue
                         then Return (Some (CannotSetField name), obj, w)
                         else
                           (let structFieldType = rtype structFieldValue in
                            if structFieldType \<noteq> valType then
                              (case coercion_switch lib w name structFieldType valType v of
                                 SETVALUE val w' \<Rightarrow>
                                   Set_field structValue index structFieldType val w'
                               | ReturnErr err w' \<Rightarrow> Return (Some err, obj, w')
                               | NoCase \<Rightarrow>
                                   (let invalidTypeError =
                                          TypeMismatch name structFieldType valType
                                    in Return (Some invalidTypeError, obj,
                                               Println [name, Error invalidTypeError] w))
                               | Panics \<Rightarrow> Panic)
                            else Set_field structValue index structFieldType v w)))
           | _ \<Rightarrow> Panic))"

subsection \<open>SetFields\<close>

text \<open>
  The loop over \<open>fieldNames\<close> with its index: \<open>err\<close> is overwritten by every non-nil
  \<open>errTmp\<close>. The guard before the loop keeps \<open>fieldVals[i]\<close> in range; a panic of
  \<open>SetField\<close> ends the call.
\<close>

fun SetFields_loop ::
  "structs \<Rightarrow> golib \<Rightarrow> nat \<Rightarrow> string list \<Rightarrow> gvalue list \<Rightarrow> error option \<Rightarrow> obj \<Rightarrow> world
     \<Rightarrow> (error option \<times> obj \<times> world) outcome" where
  "SetFields_loop env lib i [] fieldVals err obj w = Return (err, obj, w)"
| "SetFields_loop env lib i (fieldName # rest) fieldVals err obj w =
     (case SetField env lib w obj fieldName (fieldVals ! i) of
        Panic \<Rightarrow> Panic
      | Return (errTmp, obj', w') \<Rightarrow>
          SetFields_loop env lib (Suc i) rest fieldVals
            (if errTmp \<noteq> None then errTmp else err) obj' w')"

definition SetFields ::
  "structs \<Rightarrow> golib \<Rightarrow> world \<Rightarrow> obj \<Rightarrow> string list \<Rightarrow> gvalue list \<Rightarrow> (error option \<times> obj \<times> world) outcome" where
  "SetFields env lib w obj fieldNames fieldVals =
     (if length fieldNames > length fieldVals
      then Return (Some EfieldNameCountNotEqualToFieldValues, obj, w)
      else SetFields_loop env lib 0 fieldNames fieldVals None obj w)"


section \<open>Notions used to state the specification\<close>

text \<open>
  \<open>stores r s index val w\<close>: the call with result \<open>r\<close> returned nil, the struct behind
  the pointer differs from \<open>s\<close> only in the value of the field that the index sequence
  leads to, which is now \<open>val\<close>, and the process state is \<open>w\<close>.
\<close>

definition stores :: "(error option \<times> obj \<times> world) outcome \<Rightarrow> gostruct \<Rightarrow> nat list \<Rightarrow> gvalue \<Rightarrow> world \<Rightarrow> bool" where
  "stores r s index val w \<longleftrightarrow> r = Return (None, PtrObj (set_at s index val), w)"

definition time_named :: "string \<Rightarrow> bool" where
  "time_named name \<longleftrightarrow> Contains name ''Time'' \<or> Contains name ''time''"

subsection \<open>Clock strings\<close>

definition zero_pad2 :: "string \<Rightarrow> string" where
  "zero_pad2 str = replicate (2 - length str) CHR ''0'' @ str"

definition clock_string :: "int \<Rightarrow> int \<Rightarrow> int \<Rightarrow> string" where
  "clock_string h m s =
     zero_pad2 (FormatInt h) @ '':'' @ zero_pad2 (FormatInt m) @ '':'' @ zero_pad2 (FormatInt s)"

text \<open>The number that a string of decimal digits denotes.\<close>

definition digit_value :: "char \<Rightarrow> nat" where
  "digit_value c = of_char c - 48"

definition decimal_value :: "string \<Rightarrow> nat" where
  "decimal_value str = foldl (\<lambda>a c. 10 * a + digit_value c) 0 str"

subsection \<open>Truncation to 32 bits\<close>

text \<open>
  The integer that the low 32 bits of \<open>k\<close> denote, read as two's complement and read
  as unsigned.
\<close>

definition wrap_int32 :: "int \<Rightarrow> int" where
  "wrap_int32 k = (k + 2 ^ 31) mod 2 ^ 32 - 2 ^ 31"

definition wrap_uint32 :: "int \<Rightarrow> int" where
  "wrap_uint32 k = k mod 2 ^ 32"

subsection \<open>The canonical text of a UUID\<close>

definition hex_digit :: "nat \<Rightarrow> char" where
  "hex_digit n = ''0123456789abcdef'' ! n"

definition hex_byte :: "byte \<Rightarrow> string" where
  "hex_byte b = [hex_digit (unat b div 16), hex_digit (unat b mod 16)]"

text \<open>The 32 hex digits of the bytes in order, in groups of 8, 4, 4, 4 and 12.\<close>

definition uuid_canonical :: "byte list \<Rightarrow> string" where
  "uuid_canonical bs =
     (let h = concat (map hex_byte bs)
      in take 8 h @ ''-'' @ take 4 (drop 8 h) @ ''-'' @ take 4 (drop 12 h) @ ''-''
         @ take 4 (drop 16 h) @ ''-'' @ drop 20 h)"

subsection \<open>A batch of writes\<close>

text \<open>
  \<open>apply_pairs\<close> calls \<open>SetField\<close> on every pair in order, whatever the earlier calls
  returned, and collects what each call returned; only a panic ends it early.
  \<open>last_error\<close> is the error of the last call that failed, nil when none did.
\<close>

fun apply_pairs ::
  "structs \<Rightarrow> golib \<Rightarrow> world \<Rightarrow> obj \<Rightarrow> (string \<times> gvalue) list \<Rightarrow> (error option list \<times> obj \<times> world) outcome" where
  "apply_pairs env lib w obj [] = Return ([], obj, w)"
| "apply_pairs env lib w obj ((name, v) # ps) =
     (case SetField env lib w obj name v of
        Panic \<Rightarrow> Panic
      | Return (e, obj', w') \<Rightarrow>
          (case apply_pairs env lib w' obj' ps of
             Panic \<Rightarrow> Panic
           | Return (es, obj'', w'') \<Rightarrow> Return (e # es, obj'', w'')))"

definition last_error :: "error option list \<Rightarrow> error option" where
  "last_error es =
     (let failures = filter (\<lambda>e. e \<noteq> None) es
      in if failures = [] then None else last failures)"

definition batch_result ::
  "structs \<Rightarrow> golib \<Rightarrow> world \<Rightarrow> obj \<Rightarrow> (string \<times> gvalue) list \<Rightarrow> (error option \<times> obj \<times> world) outcome" where
  "batch_result env lib w obj ps =
     (case apply_pairs env lib w obj ps of
        Panic \<Rightarrow> Panic
      | Return (es, obj', w') \<Rightarrow> Return (last_error es, obj', w'))"

subsection \<open>Integers between zero and a bound\<close>

text \<open>\<open>between0 k j\<close>: \<open>j\<close> lies between 0 and \<open>k\<close>, on the side of \<open>k\<close>.\<close>

definition between0 :: "int \<Rightarrow> int \<Rightarrow> bool" where
  "between0 k j \<longleftrightarrow> (0 \<le> j \<and> j \<le> k) \<or> (k \<le> j \<and> j \<le> 0)"

section \<open>Values for worked examples\<close>

text \<open>
  A stand-in for the library parameters: it formats every time as the layout, marshals
  nothing, and parses the reference time of the layout only
  (2006-01-02 15:04:05 UTC, 63271811045 seconds after the start of year 1).
\<close>

definition reference_Time :: gotime where
  "reference_Time = \<lparr>wall = 0, ext = 63271811045, loc = None\<rparr>"

definition example_lib :: golib where
  "example_lib =
     \<lparr>time_Format = (\<lambda>t layout. layout),
      json_Marshal = (\<lambda>v. Inl ''json: unsupported value''),
      time_Parse = (\<lambda>layout v.
         if layout = ''2006-01-02 15:04:05'' \<and> v = ''2006-01-02 15:04:05''
         then Inr reference_Time else Inl ''parsing time: cannot parse'')\<rparr>"

definition example_world :: world where
  "example_world = \<lparr>WarnInt2StrInSetField = True, stdout = []\<rparr>"

definition quiet_world :: world where
  "quiet_world = \<lparr>WarnInt2StrInSetField = False, stdout = [''started'']\<rparr>"

text \<open>
  The compiler's rule for a name that begins with an ASCII character: the field is
  exported when that character is an upper-case letter. \<open>go_field\<close> is a field that is
  not embedded, exported as its name says.
\<close>

definition IsExported :: "string \<Rightarrow> bool" where
  "IsExported name =
     (case name of [] \<Rightarrow> False | c # cs \<Rightarrow> 65 \<le> (of_char c :: nat) \<and> (of_char c :: nat) \<le> 90)"

definition go_field :: "string \<Rightarrow> gotype \<Rightarrow> gvalue \<Rightarrow> field" where
  "go_field name t v =
     \<lparr>fname = name, ftype = t, exported = IsExported name, anonymous = False, fval = v\<rparr>"

text \<open>
  \<open>type Inner struct { X int32; Label string }\<close> and the struct of
  \<open>type Outer struct { Inner; Y int32 }\<close> with its values.
\<close>

definition Inner_type :: gotype where
  "Inner_type = TOther ''main.Inner'' ''main.Inner'' KStruct"

definition example_types :: structs where
  "example_types =
     [(Inner_type,
       [\<lparr>Name = ''X'', Typ = TInt32, Exported = True, Anonymous = False\<rparr>,
        \<lparr>Name = ''Label'', Typ = TString, Exported = True, Anonymous = False\<rparr>])]"

definition example_outer :: gostruct where
  "example_outer =
     [\<lparr>fname = ''Inner'', ftype = Inner_type, exported = True, anonymous = True,
       fval = VStruct Inner_type [VInt32 1, VString ''a'']\<rparr>,
      go_field ''Y'' TInt32 (VInt32 2)]"

text \<open>
  The struct of
  \<open>type Example struct { StartTime, Count string; N int32; U uint32; note, EndTime,
  startTime string }\<close> with its values; \<open>note\<close> and \<open>startTime\<close> are unexported.
\<close>

definition example_struct :: gostruct where
  "example_struct =
     [go_field ''StartTime'' TString (VString ''old''),
      go_field ''Count'' TString (VString ''old''),
      go_field ''N'' TInt32 (VInt32 7),
      go_field ''U'' TUint32 (VUint32 0),
      go_field ''note'' TString (VString ''x''),
      go_field ''EndTime'' TString (VString ''old''),
      go_field ''startTime'' TString (VString ''old'')]"

definition example_uuid :: arr16 where
  "example_uuid =
     Arr16 0x00 0x11 0x22 0x33 0x44 0x55 0x66 0x77 0x88 0x99 0xaa 0xbb 0xcc 0xdd 0xee 0xff"

section \<open>The index sequence of a field is never empty\<close>

lemma scan_fields_matched_nonempty:
  "scan_fields name cnt idx i fs st = Some st' \<Longrightarrow> matched st \<noteq> Some [] \<Longrightarrow> matched st' \<noteq> Some []"
proof (induction fs arbitrary: i st)
  case Nil
  then show ?case by simp
next
  case (Cons f fs)
  show ?case
  proof (cases "Name f = name")
    case True
    with Cons.prems have
      "scan_fields name cnt idx (Suc i) fs (st\<lparr>matched := Some (idx @ [i])\<rparr>) = Some st'"
      by (simp split: if_splits)
    from Cons.IH [OF this] show ?thesis by simp
  next
    case False
    show ?thesis
    proof (cases "embedded_struct f")
      case None
      with False Cons.prems have "scan_fields name cnt idx (Suc i) fs st = Some st'" by simp
      from Cons.IH [OF this] Cons.prems(2) show ?thesis by simp
    next
      case (Some styp)
      with False Cons.prems(1) consider
        (a) "scan_fields name cnt idx (Suc i) fs st = Some st'"
        | (b) "scan_fields name cnt idx (Suc i) fs (st\<lparr>nextCount := (styp, 2) # nextCount st\<rparr>) = Some st'"
        | (c) "scan_fields name cnt idx (Suc i) fs
                 (st\<lparr>nextCount := (styp, if cnt > 1 then 2 else 1) # nextCount st,
                     nextScans := nextScans st @ [(Some styp, idx @ [i])]\<rparr>) = Some st'"
        by (auto split: if_splits)
      then show ?thesis
      proof cases
        case a
        from Cons.IH [OF this] Cons.prems(2) show ?thesis by simp
      next
        case b
        from Cons.IH [OF this] Cons.prems(2) show ?thesis by simp
      next
        case c
        from Cons.IH [OF this] Cons.prems(2) show ?thesis by simp
      qed
    qed
  qed
qed

lemma scan_level_matched_nonempty:
  "scan_level env root name count current st = Some st' \<Longrightarrow> matched st \<noteq> Some []
   \<Longrightarrow> matched st' \<noteq> Some []"
proof (induction current arbitrary: st)
  case Nil
  then show ?case by simp
next
  case (Cons c current)
  obtain t idx where c: "c = (t, idx)" by (cases c) auto
  show ?case
  proof (cases "t \<in> set (visited st)")
    case True
    with Cons.prems c have "scan_level env root name count current st = Some st'" by simp
    from Cons.IH [OF this Cons.prems(2)] show ?thesis .
  next
    case False
    with Cons.prems c obtain s1 where
      f: "scan_fields name (count_of count t) idx 0 (scan_fields_of env root t)
            (st\<lparr>visited := t # visited st\<rparr>) = Some s1"
      and r: "scan_level env root name count current s1 = Some st'"
      by (auto split: option.splits)
    from scan_fields_matched_nonempty [OF f] Cons.prems(2) have "matched s1 \<noteq> Some []" by simp
    from Cons.IH [OF r this] show ?thesis .
  qed
qed

lemma bfs_nonempty: "bfs env root name vis count current \<noteq> Some []"
proof (induction env root name vis count current rule: bfs.induct)
  case (1 env root name vis count current)
  show ?case
  proof (cases "current = []")
    case True
    then show ?thesis by (simp add: bfs.simps)
  next
    case False
    show ?thesis
    proof (cases "scan_level env root name count current
                    \<lparr>visited = vis, nextCount = [], nextScans = [], matched = None\<rparr>")
      case None
      with False show ?thesis by (simp add: bfs.simps)
    next
      case (Some st)
      from scan_level_matched_nonempty [OF Some] have ne: "matched st \<noteq> Some []" by simp
      show ?thesis
      proof (cases "matched st")
        case None
        with "1.IH" [OF False Some None] False Some show ?thesis
          by (subst bfs.simps) simp
      next
        case (Some index)
        with ne False \<open>scan_level env root name count current
                    \<lparr>visited = vis, nextCount = [], nextScans = [], matched = None\<rparr> = Some st\<close>
        show ?thesis by (subst bfs.simps) simp
      qed
    qed
  qed
qed

lemma FieldByName_nonempty: "FieldByName env s name \<noteq> Some []"
  by (simp add: FieldByName_def Type_FieldByName_def FieldByNameFunc_def bfs_nonempty
        split: option.splits)

lemma FieldByName_top_level:
  assumes "name \<noteq> []" and "find_index_from 0 name (map StructField_of s) = Some i"
  shows "FieldByName env s name = Some [i]"
  using assms by (simp add: FieldByName_def Type_FieldByName_def)

section \<open>Field lookup and update\<close>

lemma StructField_of_set_at:
  "map StructField_of (set_at s index val) = map StructField_of s"
proof (cases index)
  case Nil
  then show ?thesis by simp
next
  case (Cons i rest)
  show ?thesis
  proof (cases "i < length s")
    case True
    have "StructField_of ((s ! i)\<lparr>fval := set_in (fval (s ! i)) rest val\<rparr>) = StructField_of (s ! i)"
      by (simp add: StructField_of_def)
    with True have "(map StructField_of s)[i := StructField_of ((s ! i)\<lparr>fval := set_in (fval (s ! i)) rest val\<rparr>)]
                    = map StructField_of s"
      by (simp add: list_update_same_conv)
    with Cons show ?thesis by (simp add: map_update)
  next
    case False
    then have "s[i := (s ! i)\<lparr>fval := set_in (fval (s ! i)) rest val\<rparr>] = s"
      by (simp add: list_update_beyond)
    with Cons show ?thesis by simp
  qed
qed

lemma FieldByName_set_at:
  "FieldByName env (set_at s index val) name = FieldByName env s name"
  by (simp only: FieldByName_def StructField_of_set_at)

lemma descend_set_in:
  "descend env u rest = Return fv \<Longrightarrow>
   descend env (set_in u rest val) rest = Return (fv\<lparr>rvalue := val\<rparr>)"
proof (induction rest arbitrary: u)
  case Nil
  then show ?case by simp
next
  case (Cons x rest)
  from Cons.prems obtain t vs where sb: "struct_behind u = Some (t, vs)"
    by (cases "struct_behind u") auto
  from Cons.prems sb have x: "x < length (Fields env t)" "x < length vs"
    by (auto split: if_splits)
  from sb consider (s) "u = VStruct t vs" | (p) "u = VPtr t (Some vs)"
    by (cases u rule: struct_behind.cases) auto
  then have sb': "struct_behind (set_in u (x # rest) val) = Some (t, vs[x := set_in (vs ! x) rest val])"
    by cases simp_all
  show ?case
  proof (cases "rest = []")
    case True
    with Cons.prems sb x have "fv = \<lparr>rtype = Typ (Fields env t ! x),
                             rexported = Exported (Fields env t ! x), rvalue = vs ! x\<rparr>"
      by simp
    with True sb' x show ?thesis by simp
  next
    case False
    with Cons.prems sb x have "descend env (vs ! x) rest = Return fv" by simp
    from Cons.IH [OF this] False sb' x show ?thesis by simp
  qed
qed

lemma FieldByIndex_set_at:
  assumes "FieldByIndex env s index = Return fv"
  shows "FieldByIndex env (set_at s index val) index = Return (fv\<lparr>rvalue := val\<rparr>)"
proof (cases index)
  case Nil
  with assms show ?thesis by simp
next
  case (Cons i rest)
  with assms have i: "i < length s" by (auto split: if_splits)
  show ?thesis
  proof (cases "rest = []")
    case True
    with assms Cons i show ?thesis by auto
  next
    case False
    with assms Cons i have "descend env (fval (s ! i)) rest = Return fv" by simp
    from descend_set_in [OF this] False Cons i show ?thesis by simp
  qed
qed

lemma set_at_top: "set_at s [i] val = s[i := (s ! i)\<lparr>fval := val\<rparr>]"
  by simp

subsection \<open>The example structs\<close>

lemma IsExported_example:
  "IsExported ''StartTime''" "IsExported ''Count''" "IsExported ''N''" "IsExported ''U''"
  "\<not> IsExported ''note''" "IsExported ''EndTime''" "\<not> IsExported ''startTime''"
  "IsExported ''Y''"
  by (simp_all add: IsExported_def)

lemma FieldByName_example:
  "FieldByName env example_struct ''StartTime'' = Some [0]"
  "FieldByName env example_struct ''Count'' = Some [1]"
  "FieldByName env example_struct ''N'' = Some [2]"
  "FieldByName env example_struct ''U'' = Some [3]"
  "FieldByName env example_struct ''note'' = Some [4]"
  "FieldByName env example_struct ''EndTime'' = Some [5]"
  "FieldByName env example_struct ''startTime'' = Some [6]"
  "FieldByName env example_struct ''Missing'' = None"
  by (simp_all add: FieldByName_def Type_FieldByName_def example_struct_def go_field_def
        StructField_of_def)

lemma FieldByIndex_example:
  "FieldByIndex env example_struct [0] = Return \<lparr>rtype = TString, rexported = True, rvalue = VString ''old''\<rparr>"
  "FieldByIndex env example_struct [1] = Return \<lparr>rtype = TString, rexported = True, rvalue = VString ''old''\<rparr>"
  "FieldByIndex env example_struct [2] = Return \<lparr>rtype = TInt32, rexported = True, rvalue = VInt32 7\<rparr>"
  "FieldByIndex env example_struct [3] = Return \<lparr>rtype = TUint32, rexported = True, rvalue = VUint32 0\<rparr>"
  "FieldByIndex env example_struct [4] = Return \<lparr>rtype = TString, rexported = False, rvalue = VString ''x''\<rparr>"
  "FieldByIndex env example_struct [5] = Return \<lparr>rtype = TString, rexported = True, rvalue = VString ''old''\<rparr>"
  "FieldByIndex env example_struct [6] = Return \<lparr>rtype = TString, rexported = False, rvalue = VString ''old''\<rparr>"
  by (simp_all add: example_struct_def go_field_def IsExported_def)

lemma FieldByName_example_outer:
  "FieldByName example_types example_outer ''X'' = Some [0, 0]"
  by (simp add: FieldByName_def Type_FieldByName_def FieldByNameFunc_def example_outer_def
        example_types_def go_field_def StructField_of_def Inner_type_def IsExported_def
        bfs.simps scan_fields_of_def Fields_def count_of_def embedded_struct_def)

lemma FieldByIndex_example_outer:
  "FieldByIndex example_types example_outer [0, 0]
     = Return \<lparr>rtype = TInt32, rexported = True, rvalue = VInt32 1\<rparr>"
  by (simp add: example_outer_def example_types_def Fields_def Inner_type_def)

section \<open>Writing an absent value\<close>

text \<open>
  C6. For every object and field name, \<open>SetField\<close> with the nil interface as value
  returns nil and changes nothing: the object, with every field of the struct it may
  point to, and the process state come back as they were. This holds whatever \<open>obj\<close>
  is, since the value is inspected before \<open>obj\<close>.
\<close>

theorem SetField_nil_value_noop:
  "SetField env lib w obj name VNil = Return (None, obj, w)"
  by (simp add: SetField_def)

theorem SetField_nil_value_noop_witness:
  "SetField example_types example_lib example_world (PtrObj example_struct) ''N'' VNil
     = Return (None, PtrObj example_struct, example_world)"
  by (rule SetField_nil_value_noop)

section \<open>The arity check of SetFields\<close>

text \<open>
  C3. When there are fewer values than names, \<open>SetFields\<close> returns
  \<open>EfieldNameCountNotEqualToFieldValues\<close> and neither the object nor the process state
  changes: no field is written.
\<close>

theorem SetFields_fewer_values:
  "length fieldVals < length fieldNames \<Longrightarrow>
   SetFields env lib w obj fieldNames fieldVals
     = Return (Some EfieldNameCountNotEqualToFieldValues, obj, w)"
  by (simp add: SetFields_def)

theorem SetFields_fewer_values_witness:
  "length [VInt32 1] < length [''N'', ''Count'']
   \<and> SetFields example_types example_lib example_world (PtrObj example_struct)
         [''N'', ''Count''] [VInt32 1]
       = Return (Some EfieldNameCountNotEqualToFieldValues, PtrObj example_struct, example_world)"
proof -
  have h: "length [VInt32 1] < length [''N'', ''Count'']" by simp
  from SetFields_fewer_values [OF h] h show ?thesis by simp
qed

section \<open>Reading back what was written\<close>

text \<open>
  C7. For a struct passed by pointer, a field \<open>f\<close> of it that the lookup by name
  reaches, at the top level or promoted from an embedded struct at any depth, that is
  exported, and a value \<open>v\<close> whose runtime type is the declared type of the field:
  \<open>SetField\<close> returns nil and stores \<open>v\<close> itself, and \<open>GetField\<close> on the struct
  after the call returns \<open>v\<close>. (\<open>FieldByIndex\<close> returns when no embedded pointer on
  the way to the field is nil; where one is, \<open>SetField\<close> panics and does not succeed.)
\<close>

theorem SetField_GetField_roundtrip:
  assumes "FieldByName env s f = Some index"
    and "FieldByIndex env s index = Return field"
    and "rexported field"
    and "TypeOf v = Some (rtype field)"
  shows "SetField env lib w (PtrObj s) f v = Return (None, PtrObj (set_at s index v), w)
         \<and> GetField env (PtrObj (set_at s index v)) f = Return (Inr v)"
proof -
  have set: "SetField env lib w (PtrObj s) f v = Return (None, PtrObj (set_at s index v), w)"
    using assms by (simp add: SetField_def CanSet_def Set_field_def)
  have "FieldByName env (set_at s index v) f = Some index"
    using assms(1) by (simp only: FieldByName_set_at)
  moreover have "FieldByIndex env (set_at s index v) index = Return (field\<lparr>rvalue := v\<rparr>)"
    using assms(2) by (rule FieldByIndex_set_at)
  ultimately have "GetField env (PtrObj (set_at s index v)) f = Return (Inr v)"
    using assms(3) by (simp add: GetField_def)
  with set show ?thesis by simp
qed

theorem SetField_GetField_roundtrip_witness:
  "SetField example_types example_lib example_world (PtrObj example_outer) ''X'' (VInt32 42)
     = Return (None, PtrObj (set_at example_outer [0, 0] (VInt32 42)), example_world)
   \<and> GetField example_types (PtrObj (set_at example_outer [0, 0] (VInt32 42))) ''X''
     = Return (Inr (VInt32 42))
   \<and> set_at example_outer [0, 0] (VInt32 42)
     = [\<lparr>fname = ''Inner'', ftype = Inner_type, exported = True, anonymous = True,
         fval = VStruct Inner_type [VInt32 42, VString ''a'']\<rparr>,
        go_field ''Y'' TInt32 (VInt32 2)]
   \<and> SetField example_types example_lib example_world (PtrObj example_struct) ''N'' (VInt32 42)
     = Return (None, PtrObj (set_at example_struct [2] (VInt32 42)), example_world)
   \<and> GetField example_types (PtrObj (set_at example_struct [2] (VInt32 42))) ''N''
     = Return (Inr (VInt32 42))"
proof -
  have h1: "FieldByName example_types example_outer ''X'' = Some [0, 0]"
    by (rule FieldByName_example_outer)
  have h2: "FieldByIndex example_types example_outer [0, 0]
              = Return \<lparr>rtype = TInt32, rexported = True, rvalue = VInt32 1\<rparr>"
    by (rule FieldByIndex_example_outer)
  have h3: "rexported \<lparr>rtype = TInt32, rexported = True, rvalue = VInt32 1\<rparr>" by simp
  have h4: "TypeOf (VInt32 42) = Some (rtype \<lparr>rtype = TInt32, rexported = True, rvalue = VInt32 1\<rparr>)"
    by simp
  have k1: "FieldByName example_types example_struct ''N'' = Some [2]"
    by (rule FieldByName_example)
  have k2: "FieldByIndex example_types example_struct [2]
              = Return \<lparr>rtype = TInt32, rexported = True, rvalue = VInt32 7\<rparr>"
    by (rule FieldByIndex_example)
  have k3: "rexported \<lparr>rtype = TInt32, rexported = True, rvalue = VInt32 7\<rparr>" by simp
  have k4: "TypeOf (VInt32 42) = Some (rtype \<lparr>rtype = TInt32, rexported = True, rvalue = VInt32 7\<rparr>)"
    by simp
  have shape: "set_at example_outer [0, 0] (VInt32 42)
     = [\<lparr>fname = ''Inner'', ftype = Inner_type, exported = True, anonymous = True,
         fval = VStruct Inner_type [VInt32 42, VString ''a'']\<rparr>,
        go_field ''Y'' TInt32 (VInt32 2)]"
    by (simp add: example_outer_def)
  from SetField_GetField_roundtrip [OF h1 h2 h3 h4, of example_lib example_world]
       SetField_GetField_roundtrip [OF k1 k2 k3 k4, of example_lib example_world] shape
  show ?thesis by (simp only: simp_thms)
qed

section \<open>Integer narrowing\<close>

lemma sint_eq_wrap: "sint (w :: 32 word) = wrap_int32 (uint w)"
  unfolding wrap_int32_def sint_uint signed_take_bit_eq_take_bit_shift take_bit_eq_mod
  by simp

lemma uint_scast_64_32: "uint (scast (x :: 64 word) :: 32 word) = sint x mod 2 ^ 32"
  unfolding scast_eq uint_word_of_int by simp

lemma uint_ucast_64_32: "uint (ucast (x :: 64 word) :: 32 word) = uint x mod 2 ^ 32"
  unfolding unsigned_ucast_eq take_bit_eq_mod by simp

lemma wrap_int32_mod: "wrap_int32 (k mod 2 ^ 32) = wrap_int32 k"
  unfolding wrap_int32_def by (simp only: mod_add_left_eq)

lemma sint_scast_64_32: "sint (scast (x :: 64 word) :: 32 word) = wrap_int32 (sint x)"
  unfolding sint_eq_wrap uint_scast_64_32 by (rule wrap_int32_mod)

lemma sint_ucast_64_32: "sint (ucast (x :: 64 word) :: 32 word) = wrap_int32 (uint x)"
  unfolding sint_eq_wrap uint_ucast_64_32 by (rule wrap_int32_mod)

lemma uint_eq_wrap: "uint (w :: 32 word) = wrap_uint32 (sint w)"
proof -
  have "sint w mod 2 ^ 32 = uint (word_of_int (sint w) :: 32 word)"
    unfolding uint_word_of_int by simp
  then show ?thesis
    unfolding wrap_uint32_def by simp
qed

lemma SetField_coerces:
  assumes "FieldByName env s name = Some index" and "FieldByIndex env s index = Return field"
    and "rexported field"
    and "TypeOf v = Some vt" and "rtype field \<noteq> vt"
    and "coercion_switch lib w name (rtype field) vt v = SETVALUE val w'"
    and "TypeOf val = Some (rtype field)"
  shows "stores (SetField env lib w (PtrObj s) name v) s index val w'"
  using assms by (simp add: stores_def SetField_def CanSet_def Set_field_def)

text \<open>
  C5. Into an exported \<open>int32\<close> field, at the top level of the struct or promoted
  from an embedded struct, a \<open>uint32\<close>, \<open>int64\<close> or \<open>uint64\<close> value is
  written as the \<open>int32\<close> whose value is the source's integer wrapped to 32 bits and read
  as two's complement; into an exported \<open>uint32\<close> field, an \<open>int32\<close>, \<open>int64\<close> or
  \<open>uint64\<close> value is written as the \<open>uint32\<close> whose value is the source's integer
  modulo \<open>2 ^ 32\<close>. Every such call returns nil, whatever the source value: there is no
  range check.
\<close>

theorem SetField_narrows_to_32_bits:
  assumes "FieldByName env s name = Some index" and "FieldByIndex env s index = Return field"
    and "rexported field"
  shows "(rtype field = TInt32 \<longrightarrow>
            (\<exists>r. stores (SetField env lib w (PtrObj s) name (VUint32 a)) s index (VInt32 r) w
                 \<and> sint r = wrap_int32 (uint a))
          \<and> (\<exists>r. stores (SetField env lib w (PtrObj s) name (VInt64 b)) s index (VInt32 r) w
                 \<and> sint r = wrap_int32 (sint b))
          \<and> (\<exists>r. stores (SetField env lib w (PtrObj s) name (VUint64 c)) s index (VInt32 r) w
                 \<and> sint r = wrap_int32 (uint c)))
       \<and> (rtype field = TUint32 \<longrightarrow>
            (\<exists>r. stores (SetField env lib w (PtrObj s) name (VInt32 a)) s index (VUint32 r) w
                 \<and> uint r = wrap_uint32 (sint a))
          \<and> (\<exists>r. stores (SetField env lib w (PtrObj s) name (VInt64 b)) s index (VUint32 r) w
                 \<and> uint r = wrap_uint32 (sint b))
          \<and> (\<exists>r. stores (SetField env lib w (PtrObj s) name (VUint64 c)) s index (VUint32 r) w
                 \<and> uint r = wrap_uint32 (uint c)))"
proof (intro conjI impI)
  assume t: "rtype field = TInt32"
  have "stores (SetField env lib w (PtrObj s) name (VUint32 a)) s index (VInt32 (ucast a)) w"
    by (rule SetField_coerces [OF assms, where vt = TUint32])
       (simp_all add: t coercion_switch_def switch_Int32_def)
  moreover have "sint (ucast a :: 32 word) = wrap_int32 (uint a)"
    by (simp add: sint_eq_wrap)
  ultimately show "\<exists>r. stores (SetField env lib w (PtrObj s) name (VUint32 a)) s index (VInt32 r) w
                 \<and> sint r = wrap_int32 (uint a)" by blast
  have "stores (SetField env lib w (PtrObj s) name (VInt64 b)) s index (VInt32 (scast b)) w"
    by (rule SetField_coerces [OF assms, where vt = TInt64])
       (simp_all add: t coercion_switch_def switch_Int32_def)
  with sint_scast_64_32 [of b]
  show "\<exists>r. stores (SetField env lib w (PtrObj s) name (VInt64 b)) s index (VInt32 r) w
                 \<and> sint r = wrap_int32 (sint b)" by blast
  have "stores (SetField env lib w (PtrObj s) name (VUint64 c)) s index (VInt32 (ucast c)) w"
    by (rule SetField_coerces [OF assms, where vt = TUint64])
       (simp_all add: t coercion_switch_def switch_Int32_def)
  with sint_ucast_64_32 [of c]
  show "\<exists>r. stores (SetField env lib w (PtrObj s) name (VUint64 c)) s index (VInt32 r) w
                 \<and> sint r = wrap_int32 (uint c)" by blast
next
  assume t: "rtype field = TUint32"
  have "stores (SetField env lib w (PtrObj s) name (VInt32 a)) s index (VUint32 (scast a)) w"
    by (rule SetField_coerces [OF assms, where vt = TInt32])
       (simp_all add: t coercion_switch_def switch_Uint32_def)
  moreover have "uint (scast a :: 32 word) = wrap_uint32 (sint a)"
    by (simp add: uint_eq_wrap)
  ultimately show "\<exists>r. stores (SetField env lib w (PtrObj s) name (VInt32 a)) s index (VUint32 r) w
                 \<and> uint r = wrap_uint32 (sint a)" by blast
  have "stores (SetField env lib w (PtrObj s) name (VInt64 b)) s index (VUint32 (scast b)) w"
    by (rule SetField_coerces [OF assms, where vt = TInt64])
       (simp_all add: t coercion_switch_def switch_Uint32_def)
  with uint_scast_64_32 [of b]
  show "\<exists>r. stores (SetField env lib w (PtrObj s) name (VInt64 b)) s index (VUint32 r) w
                 \<and> uint r = wrap_uint32 (sint b)"
    unfolding wrap_uint32_def by blast
  have "stores (SetField env lib w (PtrObj s) name (VUint64 c)) s index (VUint32 (ucast c)) w"
    by (rule SetField_coerces [OF assms, where vt = TUint64])
       (simp_all add: t coercion_switch_def switch_Uint32_def)
  with uint_ucast_64_32 [of c]
  show "\<exists>r. stores (SetField env lib w (PtrObj s) name (VUint64 c)) s index (VUint32 r) w
                 \<and> uint r = wrap_uint32 (uint c)"
    unfolding wrap_uint32_def by blast
qed

theorem SetField_narrows_to_32_bits_witness:
  "SetField example_types example_lib example_world (PtrObj example_struct) ''N'' (VInt64 4294967296)
     = Return (None, PtrObj (example_struct[2 := (example_struct ! 2)\<lparr>fval := VInt32 0\<rparr>]), example_world)"
proof -
  have h1: "FieldByName example_types example_struct ''N'' = Some [2]" by (rule FieldByName_example)
  have h2: "FieldByIndex example_types example_struct [2]
              = Return \<lparr>rtype = TInt32, rexported = True, rvalue = VInt32 7\<rparr>"
    by (rule FieldByIndex_example)
  have h3: "rexported \<lparr>rtype = TInt32, rexported = True, rvalue = VInt32 7\<rparr>" by simp
  have h4: "rtype \<lparr>rtype = TInt32, rexported = True, rvalue = VInt32 7\<rparr> = TInt32" by simp
  from SetField_narrows_to_32_bits [OF h1 h2 h3, of example_lib example_world _ 4294967296] h4
  obtain r :: "32 word" where
    st: "stores (SetField example_types example_lib example_world (PtrObj example_struct) ''N''
                   (VInt64 4294967296))
           example_struct [2] (VInt32 r) example_world"
    and r: "sint r = wrap_int32 (sint (4294967296 :: 64 word))"
    by blast
  have "wrap_int32 (sint (4294967296 :: 64 word)) = 0" by (simp add: wrap_int32_def)
  with r have "sint r = 0" by simp
  then have "(word_of_int (sint r) :: 32 word) = word_of_int 0" by (simp only:)
  then have "r = 0" by simp
  with st show ?thesis by (simp add: stores_def)
qed

section \<open>Decimal and clock renderings\<close>

lemma digits_nonempty: "digits n \<noteq> []"
  by (subst digits.simps) simp

lemma digit_value_digit_char:
  assumes "d < 10"
  shows "digit_value (digit_char d) = d"
proof -
  from assms have "d \<in> {0, 1, 2, 3, 4, 5, 6, 7, 8, 9}" by auto
  then show ?thesis
    by (elim insertE emptyE) (simp_all add: digit_value_def digit_char_def)
qed

lemma decimal_value_snoc:
  "decimal_value (str @ [c]) = 10 * decimal_value str + digit_value c"
  by (simp add: decimal_value_def)

lemma decimal_value_digits: "decimal_value (digits n) = n"
proof (induction n rule: digits.induct)
  case (1 n)
  show ?case
  proof (cases "n < 10")
    case True
    then show ?thesis
      by (subst digits.simps) (simp add: decimal_value_def digit_value_digit_char)
  next
    case False
    with "1" have "decimal_value (digits (n div 10)) = n div 10" by simp
    with False show ?thesis
      by (subst digits.simps) (simp add: decimal_value_snoc digit_value_digit_char)
  qed
qed

lemma FormatInt_denotes:
  "FormatInt i = (if i < 0 then CHR ''-'' # digits (nat \<bar>i\<bar>) else digits (nat \<bar>i\<bar>))
   \<and> int (decimal_value (digits (nat \<bar>i\<bar>))) = \<bar>i\<bar>"
  by (simp add: FormatInt_def decimal_value_digits)

lemma Sprintf_02d_eq: "Sprintf_02d i = zero_pad2 (FormatInt i)"
proof (cases "i < 0")
  case True
  have "1 - length (digits (nat \<bar>i\<bar>)) = 0"
    using digits_nonempty [of "nat \<bar>i\<bar>"] by (cases "digits (nat \<bar>i\<bar>)") simp_all
  with True show ?thesis
    by (simp add: Sprintf_02d_def zero_pad2_def FormatInt_def Let_def)
next
  case False
  then show ?thesis
    by (simp add: Sprintf_02d_def zero_pad2_def FormatInt_def Let_def)
qed

lemma Sprintf_clock_eq: "Sprintf_clock h m s = clock_string h m s"
  by (simp add: Sprintf_clock_def clock_string_def Sprintf_02d_eq)

subsection \<open>Quotient and remainder truncated towards zero\<close>

lemma sdiv_nonneg: "0 \<le> k \<Longrightarrow> 0 < l \<Longrightarrow> k sdiv l = k div (l::int)"
  by (cases "k = 0") (simp_all add: signed_divide_int_def)

lemma smod_nonneg: "0 \<le> k \<Longrightarrow> 0 < l \<Longrightarrow> k smod l = k mod (l::int)"
  by (cases "k = 0") (simp_all add: signed_modulo_int_def)

lemma sdiv_neg: "k < 0 \<Longrightarrow> 0 < l \<Longrightarrow> k sdiv l = - ((- k) div (l::int))"
  by (simp add: signed_divide_int_def)

lemma smod_neg: "k < 0 \<Longrightarrow> 0 < l \<Longrightarrow> k smod l = - ((- k) mod (l::int))"
  by (simp add: signed_modulo_int_def)

lemma sdiv_bounds:
  assumes "0 < (l::int)"
  shows "\<bar>k sdiv l\<bar> \<le> \<bar>k\<bar>"
proof (cases "k < 0")
  case True
  have "(- k) div l \<le> (- k) div 1" using True assms
    by (intro zdiv_mono2) simp_all
  then have "(- k) div l \<le> - k" by simp
  moreover have "0 \<le> (- k) div l" using True assms by (simp add: pos_imp_zdiv_nonneg_iff)
  ultimately show ?thesis using True assms by (simp add: sdiv_neg)
next
  case False
  then have "k div l \<le> k div 1" using assms by (intro zdiv_mono2) simp_all
  then have "k div l \<le> k" by simp
  moreover have "0 \<le> k div l" using False assms by (simp add: pos_imp_zdiv_nonneg_iff)
  ultimately show ?thesis using False assms by (simp add: sdiv_nonneg)
qed

lemma smod_eq_minus: "k smod l = k - (k sdiv l) * (l::int)"
  using sdiv_mult_smod_eq [of k l] by simp

lemma smod_smod_dvd:
  assumes "0 < (m::int)" and "0 < l" and "m dvd l"
  shows "(k smod l) smod m = k smod m"
proof (cases "k < 0")
  case True
  show ?thesis
  proof (cases "(- k) mod l = 0")
    case z: True
    then have "l dvd - k" by (simp add: dvd_eq_mod_eq_0)
    with assms(3) have "m dvd - k" by (rule dvd_trans)
    then have "(- k) mod m = 0" by (simp add: dvd_eq_mod_eq_0)
    with z True assms show ?thesis by (simp add: smod_neg)
  next
    case nz: False
    have "0 \<le> (- k) mod l" using assms by simp
    with nz have "- ((- k) mod l) < 0" by simp
    then have "(- ((- k) mod l)) smod m = - (((- k) mod l) mod m)"
      using assms(1) by (simp add: smod_neg smod_nonneg)
    also have "((- k) mod l) mod m = (- k) mod m"
      using assms(3) by (rule mod_mod_cancel)
    finally show ?thesis using True assms by (simp add: smod_neg)
  qed
next
  case False
  then have "0 \<le> k mod l" using assms by simp
  then have "(k mod l) smod m = (k mod l) mod m" using assms(1) by (rule smod_nonneg)
  also have "\<dots> = k mod m" using assms(3) by (rule mod_mod_cancel)
  finally show ?thesis using False assms by (simp add: smod_nonneg)
qed

lemma between0_sdiv: "0 < l \<Longrightarrow> between0 k (k sdiv l)"
  using sdiv_bounds [of l k]
  by (cases "k < 0") (simp_all add: between0_def sdiv_neg sdiv_nonneg pos_imp_zdiv_nonneg_iff)

lemma between0_smod: "0 < l \<Longrightarrow> between0 k (k smod l)"
proof (cases "k < 0")
  case True
  assume l: "0 < l"
  have "(- k) mod l \<le> - k" using True l by (intro zmod_le_nonneg_dividend) simp
  with True l show ?thesis by (simp add: between0_def smod_neg)
next
  case False
  assume l: "0 < l"
  have "k mod l \<le> k" using False l by (intro zmod_le_nonneg_dividend) simp
  with False l show ?thesis by (simp add: between0_def smod_nonneg)
qed

subsection \<open>The 64-bit arithmetic does not overflow\<close>

lemma sint_word_of_int_between0:
  assumes "between0 (sint (a :: 64 word)) j"
  shows "sint (word_of_int j :: 64 word) = j"
proof -
  have "- (2 ^ 63) \<le> sint a" "sint a < 2 ^ 63"
    using sint_ge [of a] sint_lt [of a] by simp_all
  with assms have "- (2 ^ 63) \<le> j" "j < 2 ^ 63"
    by (auto simp: between0_def)
  then have "signed_take_bit 63 j = j" by (rule signed_take_bit_int_eq_self)
  then show ?thesis by (simp add: sint_sbintrunc')
qed

lemma int64_quo_step:
  assumes l: "0 < sint (lw :: 64 word)"
  shows "sint (int64_quo a lw) = sint a sdiv sint lw"
    and "sint (a - int64_quo a lw * lw) = sint a smod sint lw"
proof -
  show "sint (int64_quo a lw) = sint a sdiv sint lw"
    unfolding int64_quo_def
    using between0_sdiv [OF l] by (rule sint_word_of_int_between0)
  have "a - int64_quo a lw * lw =
        word_of_int (sint a) - word_of_int (sint a sdiv sint lw) * word_of_int (sint lw)"
    unfolding int64_quo_def by simp
  also have "\<dots> = word_of_int (sint a - (sint a sdiv sint lw) * sint lw)"
    by (simp only: of_int_diff of_int_mult)
  also have "sint a - (sint a sdiv sint lw) * sint lw = sint a smod sint lw"
    by (simp add: smod_eq_minus)
  finally have "a - int64_quo a lw * lw = word_of_int (sint a smod sint lw)" .
  then show "sint (a - int64_quo a lw * lw) = sint a smod sint lw"
    using between0_smod [OF l, of "sint a"] by (simp only: sint_word_of_int_between0)
qed

lemma sint_microseconds:
  "sint microsecondsPerHour = 3600000000"
  "sint microsecondsPerMinute = 60000000"
  "sint microsecondsPerSecond = 1000000"
  by (simp_all add: microsecondsPerHour_def microsecondsPerMinute_def microsecondsPerSecond_def)

lemma clock_of_usec_eq:
  "clock_of_usec usec =
     clock_string (sint usec sdiv 3600000000)
                  ((sint usec smod 3600000000) sdiv 60000000)
                  ((sint usec smod 60000000) sdiv 1000000)"
proof -
  define k where "k = sint usec"
  define hours where "hours = int64_quo usec microsecondsPerHour"
  define usec1 where "usec1 = usec - hours * microsecondsPerHour"
  define minutes where "minutes = int64_quo usec1 microsecondsPerMinute"
  define usec2 where "usec2 = usec1 - minutes * microsecondsPerMinute"
  define seconds where "seconds = int64_quo usec2 microsecondsPerSecond"
  have h: "sint hours = k sdiv 3600000000" and u1: "sint usec1 = k smod 3600000000"
    unfolding hours_def usec1_def k_def
    using int64_quo_step [of microsecondsPerHour usec] by (simp_all add: sint_microseconds)
  have m: "sint minutes = (k smod 3600000000) sdiv 60000000"
    and u2: "sint usec2 = (k smod 3600000000) smod 60000000"
    unfolding minutes_def usec2_def
    using int64_quo_step [of microsecondsPerMinute usec1] by (simp_all add: sint_microseconds u1)
  have "(k smod 3600000000) smod 60000000 = k smod 60000000"
    by (rule smod_smod_dvd) simp_all
  with u2 have u2': "sint usec2 = k smod 60000000" by simp
  have s: "sint seconds = (k smod 60000000) sdiv 1000000"
    unfolding seconds_def
    using int64_quo_step(1) [of microsecondsPerSecond usec2] by (simp add: sint_microseconds u2')
  have "clock_of_usec usec = Sprintf_clock (sint hours) (sint minutes) (sint seconds)"
    by (simp add: clock_of_usec_def Let_def hours_def usec1_def minutes_def usec2_def seconds_def)
  then show ?thesis
    by (simp only: h m s Sprintf_clock_eq k_def)
qed

lemma time_named_example:
  "time_named ''StartTime''" "time_named ''EndTime''" "time_named ''startTime''"
  "\<not> time_named ''Count''"
  by (simp_all add: time_named_def)

lemma SetField_int64_string_stores:
  assumes "FieldByName env s name = Some index" and "FieldByIndex env s index = Return field"
    and "rexported field" and "rtype field = TString"
  shows "stores (SetField env lib w (PtrObj s) name (VInt64 v)) s index
           (VString (if time_named name then clock_of_usec v else FormatInt (sint v))) w"
proof -
  have sw: "coercion_switch lib w name (rtype field) TInt64 (VInt64 v)
              = SETVALUE (VString (if time_named name then clock_of_usec v else FormatInt (sint v))) w"
    by (simp add: assms(4) coercion_switch_def switch_String_def time_named_def)
  show ?thesis
    by (rule SetField_coerces [OF assms(1,2,3) _ _ sw]) (simp_all add: assms(4))
qed

lemma SetField_unexported:
  assumes "FieldByName env s name = Some index" and "FieldByIndex env s index = Return field"
    and "\<not> rexported field" and "v \<noteq> VNil"
  shows "SetField env lib w (PtrObj s) name v = Return (Some (CannotSetField name), PtrObj s, w)"
proof -
  from assms(4) obtain vt where "TypeOf v = Some vt" by (cases v) simp_all
  with assms(1,2,3) show ?thesis by (simp add: SetField_def CanSet_def)
qed

lemma clock_of_usec_example: "clock_of_usec 3661000000 = ''01:01:01''"
  by (simp add: clock_of_usec_eq sdiv_nonneg smod_nonneg clock_string_def zero_pad2_def
        FormatInt_def digits.simps digit_char_def)

lemma clock_of_usec_negative_example: "clock_of_usec (- 3661000000) = ''-1:-1:-1''"
proof -
  have s: "sint (- 3661000000 :: 64 word) = - 3661000000" by simp
  have "clock_of_usec (- 3661000000) = clock_string (- 1) (- 1) (- 1)"
    unfolding clock_of_usec_eq s by (simp add: sdiv_neg smod_neg)
  also have "\<dots> = ''-1:-1:-1''"
    by (simp add: clock_string_def zero_pad2_def FormatInt_def digits.simps digit_char_def)
  finally show ?thesis .
qed

lemma FormatInt_example:
  "FormatInt (sint (3661000000 :: 64 word)) = ''3661000000''"
  "FormatInt (sint (12345 :: 64 word)) = ''12345''"
  by (simp_all add: FormatInt_def digits.simps digit_char_def)

text \<open>
  C4, as stated, fails in two places. Its own example does: a field named
  \<open>startTime\<close> is unexported, so \<open>SetField\<close> returns the cannot-set error and writes
  nothing. And for a negative value the quotients are not \<open>div\<close> and \<open>mod\<close>: for
  -3661000000 on the exported field \<open>StartTime\<close> the text stored is \<open>-1:-1:-1\<close>,
  where \<open>div\<close> and \<open>mod\<close> give the hours, minutes and seconds -2, 58 and 59.
\<close>

theorem SetField_int64_into_string_counterexample:
  "SetField example_types example_lib example_world (PtrObj example_struct) ''startTime''
       (VInt64 3661000000)
     = Return (Some (CannotSetField ''startTime''), PtrObj example_struct, example_world)
   \<and> SetField example_types example_lib example_world (PtrObj example_struct) ''StartTime''
       (VInt64 (- 3661000000))
     = Return (None, PtrObj (set_at example_struct [0] (VString ''-1:-1:-1'')), example_world)
   \<and> sint (- 3661000000 :: 64 word) div 3600000000 = - 2
   \<and> (sint (- 3661000000 :: 64 word) mod 3600000000) div 60000000 = 58
   \<and> (sint (- 3661000000 :: 64 word) mod 60000000) div 1000000 = 59
   \<and> clock_string (- 2) 58 59 = ''-2:58:59''"
proof -
  have u1: "FieldByName example_types example_struct ''startTime'' = Some [6]"
    by (rule FieldByName_example)
  have u2: "FieldByIndex example_types example_struct [6]
              = Return \<lparr>rtype = TString, rexported = False, rvalue = VString ''old''\<rparr>"
    by (rule FieldByIndex_example)
  have u3: "\<not> rexported \<lparr>rtype = TString, rexported = False, rvalue = VString ''old''\<rparr>" by simp
  have a: "SetField example_types example_lib example_world (PtrObj example_struct) ''startTime''
       (VInt64 3661000000)
     = Return (Some (CannotSetField ''startTime''), PtrObj example_struct, example_world)"
    by (rule SetField_unexported [OF u1 u2 u3]) simp
  have e1: "FieldByName example_types example_struct ''StartTime'' = Some [0]"
    by (rule FieldByName_example)
  have e2: "FieldByIndex example_types example_struct [0]
              = Return \<lparr>rtype = TString, rexported = True, rvalue = VString ''old''\<rparr>"
    by (rule FieldByIndex_example)
  have e3: "rexported \<lparr>rtype = TString, rexported = True, rvalue = VString ''old''\<rparr>" by simp
  have e4: "rtype \<lparr>rtype = TString, rexported = True, rvalue = VString ''old''\<rparr> = TString" by simp
  have b: "SetField example_types example_lib example_world (PtrObj example_struct) ''StartTime''
       (VInt64 (- 3661000000))
     = Return (None, PtrObj (set_at example_struct [0] (VString ''-1:-1:-1'')), example_world)"
    using SetField_int64_string_stores [OF e1 e2 e3 e4, of example_lib example_world "- 3661000000"]
    by (simp only: time_named_example clock_of_usec_negative_example if_True stores_def)
  have c: "sint (- 3661000000 :: 64 word) div 3600000000 = - 2"
    "(sint (- 3661000000 :: 64 word) mod 3600000000) div 60000000 = 58"
    "(sint (- 3661000000 :: 64 word) mod 60000000) div 1000000 = 59"
    by simp_all
  have d: "clock_string (- 2) 58 59 = ''-2:58:59''"
    by (simp add: clock_string_def zero_pad2_def FormatInt_def digits.simps digit_char_def)
  from a b c d show ?thesis by (simp only: simp_thms)
qed

text \<open>
  C4, amended. An \<open>int64\<close> value \<open>v\<close> written into a string field that the lookup by
  name reaches. When the field is exported: if the field name contains \<open>Time\<close> or
  \<open>time\<close>, the text stored is hours, minutes and seconds, each in decimal and filled
  with zeros on the left to two characters (a minus sign is one of them), joined by
  colons, where hours is the quotient of \<open>v\<close> by 3600000000, minutes the quotient by
  60000000 of the remainder of \<open>v\<close> by 3600000000, and seconds the quotient by 1000000
  of the remainder of \<open>v\<close> by 60000000, quotient and remainder truncated towards zero
  (\<open>sdiv\<close>, \<open>smod\<close>); for \<open>v \<ge> 0\<close> they are \<open>div\<close> and \<open>mod\<close>, which is the second
  part; otherwise the text stored is \<open>v\<close> in decimal. When the field is unexported,
  nothing is written and the cannot-set error is returned.
\<close>

theorem SetField_int64_into_string:
  assumes "FieldByName env s name = Some index" and "FieldByIndex env s index = Return field"
    and "rtype field = TString"
  shows "(rexported field \<longrightarrow>
           stores (SetField env lib w (PtrObj s) name (VInt64 v)) s index
             (VString (if time_named name
                       then clock_string (sint v sdiv 3600000000)
                                         ((sint v smod 3600000000) sdiv 60000000)
                                         ((sint v smod 60000000) sdiv 1000000)
                       else FormatInt (sint v))) w)
         \<and> (rexported field \<longrightarrow> 0 \<le> sint v \<longrightarrow> time_named name \<longrightarrow>
              stores (SetField env lib w (PtrObj s) name (VInt64 v)) s index
                (VString (clock_string (sint v div 3600000000)
                                       ((sint v mod 3600000000) div 60000000)
                                       ((sint v mod 60000000) div 1000000))) w)
         \<and> (\<not> rexported field \<longrightarrow>
              SetField env lib w (PtrObj s) name (VInt64 v)
                = Return (Some (CannotSetField name), PtrObj s, w))"
proof -
  let ?written = "VString (if time_named name
                     then clock_string (sint v sdiv 3600000000)
                                       ((sint v smod 3600000000) sdiv 60000000)
                                       ((sint v smod 60000000) sdiv 1000000)
                     else FormatInt (sint v))"
  have first: "stores (SetField env lib w (PtrObj s) name (VInt64 v)) s index ?written w"
    if "rexported field"
    using SetField_int64_string_stores [OF assms(1,2) that assms(3), of lib w v]
    by (simp only: clock_of_usec_eq)
  have second: "stores (SetField env lib w (PtrObj s) name (VInt64 v)) s index
                (VString (clock_string (sint v div 3600000000)
                                       ((sint v mod 3600000000) div 60000000)
                                       ((sint v mod 60000000) div 1000000))) w"
    if ex: "rexported field" and nn: "0 \<le> sint v" and tn: "time_named name"
  proof -
    have "0 \<le> sint v mod 3600000000" "0 \<le> sint v mod 60000000" by simp_all
    with nn tn have "?written = VString (clock_string (sint v div 3600000000)
                                       ((sint v mod 3600000000) div 60000000)
                                       ((sint v mod 60000000) div 1000000))"
      by (simp add: sdiv_nonneg smod_nonneg)
    with first [OF ex] show ?thesis by (simp only:)
  qed
  have third: "SetField env lib w (PtrObj s) name (VInt64 v)
                = Return (Some (CannotSetField name), PtrObj s, w)"
    if "\<not> rexported field"
    by (rule SetField_unexported [OF assms(1,2) that]) simp
  from first second third show ?thesis by blast
qed

theorem SetField_int64_into_string_witness:
  "SetField example_types example_lib example_world (PtrObj example_struct) ''StartTime''
       (VInt64 3661000000)
     = Return (None, PtrObj (set_at example_struct [0] (VString ''01:01:01'')), example_world)
   \<and> SetField example_types example_lib example_world (PtrObj example_struct) ''Count''
       (VInt64 12345)
     = Return (None, PtrObj (set_at example_struct [1] (VString ''12345'')), example_world)
   \<and> SetField example_types example_lib example_world (PtrObj example_struct) ''startTime''
       (VInt64 3661000000)
     = Return (Some (CannotSetField ''startTime''), PtrObj example_struct, example_world)"
proof -
  have a1: "FieldByName example_types example_struct ''StartTime'' = Some [0]"
    by (rule FieldByName_example)
  have a2: "FieldByIndex example_types example_struct [0]
              = Return \<lparr>rtype = TString, rexported = True, rvalue = VString ''old''\<rparr>"
    by (rule FieldByIndex_example)
  have b1: "FieldByName example_types example_struct ''Count'' = Some [1]"
    by (rule FieldByName_example)
  have b2: "FieldByIndex example_types example_struct [1]
              = Return \<lparr>rtype = TString, rexported = True, rvalue = VString ''old''\<rparr>"
    by (rule FieldByIndex_example)
  have c1: "FieldByName example_types example_struct ''startTime'' = Some [6]"
    by (rule FieldByName_example)
  have c2: "FieldByIndex example_types example_struct [6]
              = Return \<lparr>rtype = TString, rexported = False, rvalue = VString ''old''\<rparr>"
    by (rule FieldByIndex_example)
  have t: "rtype \<lparr>rtype = TString, rexported = True, rvalue = VString ''old''\<rparr> = TString"
    "rtype \<lparr>rtype = TString, rexported = False, rvalue = VString ''old''\<rparr> = TString"
    by simp_all
  have clock: "clock_string 1 1 1 = ''01:01:01''"
    by (simp add: clock_string_def zero_pad2_def FormatInt_def digits.simps digit_char_def)
  have nn: "0 \<le> sint (3661000000 :: 64 word)" by simp
  have q: "sint (3661000000 :: 64 word) div 3600000000 = 1"
    "(sint (3661000000 :: 64 word) mod 3600000000) div 60000000 = 1"
    "(sint (3661000000 :: 64 word) mod 60000000) div 1000000 = 1"
    by simp_all
  from SetField_int64_into_string [OF a1 a2 t(1), of example_lib example_world 3661000000] nn
  have "stores (SetField example_types example_lib example_world (PtrObj example_struct)
                  ''StartTime'' (VInt64 3661000000))
          example_struct [0] (VString (clock_string 1 1 1)) example_world"
    by (simp add: time_named_example)
  then have r1: "SetField example_types example_lib example_world (PtrObj example_struct)
                  ''StartTime'' (VInt64 3661000000)
     = Return (None, PtrObj (set_at example_struct [0] (VString ''01:01:01'')), example_world)"
    by (simp only: clock stores_def)
  from SetField_int64_into_string [OF b1 b2 t(1), of example_lib example_world 12345]
  have "stores (SetField example_types example_lib example_world (PtrObj example_struct)
                  ''Count'' (VInt64 12345))
          example_struct [1] (VString (FormatInt (sint (12345 :: 64 word)))) example_world"
    by (simp add: time_named_example)
  then have r2: "SetField example_types example_lib example_world (PtrObj example_struct)
                  ''Count'' (VInt64 12345)
     = Return (None, PtrObj (set_at example_struct [1] (VString ''12345'')), example_world)"
    by (simp only: FormatInt_example stores_def)
  from SetField_int64_into_string [OF c1 c2 t(2), of example_lib example_world 3661000000]
  have r3: "SetField example_types example_lib example_world (PtrObj example_struct)
                  ''startTime'' (VInt64 3661000000)
     = Return (Some (CannotSetField ''startTime''), PtrObj example_struct, example_world)"
    by simp
  from r1 r2 r3 show ?thesis by (simp only: simp_thms)
qed

section \<open>UUID bytes into a string field\<close>

lemma unat_high_nibble: "unat (drop_bit 4 (v :: byte)) = unat v div 16"
  by (simp add: drop_bit_eq_div unat_div)

lemma unat_low_nibble: "unat ((v :: byte) AND 0x0f) = unat v mod 16"
proof -
  have "(v AND 0x0f) = take_bit 4 v"
    by (simp add: take_bit_eq_mask mask_eq_exp_minus_1)
  then show ?thesis
    by (simp add: take_bit_eq_mod unat_mod)
qed

lemma hex_Encode_eq: "hex_Encode bs = concat (map hex_byte bs)"
  by (induction bs)
     (simp_all add: hex_byte_def hex_digit_def hextable_def unat_high_nibble unat_low_nibble)

lemma UUID_String_canonical: "UUID_String u = uuid_canonical (arr16_list u)"
  by (cases u) (simp add: UUID_String_def uuid_canonical_def hex_Encode_eq hex_byte_def)

lemma length_uuid_canonical: "length (uuid_canonical (arr16_list u)) = 36"
  by (cases u) (simp add: uuid_canonical_def hex_byte_def)

text \<open>
  C8. A \<open>[16]uint8\<close> value written into an exported string field, at the top level of
  the struct or promoted from an embedded struct, is stored as the
  canonical text of the UUID with these bytes: the two lower-case hex digits of each
  byte in order, in groups of 8, 4, 4, 4 and 12 digits separated by hyphens, 36
  characters in all.
\<close>

theorem SetField_uuid_into_string:
  assumes "FieldByName env s name = Some index" and "FieldByIndex env s index = Return field"
    and "rexported field" and "rtype field = TString"
  shows "stores (SetField env lib w (PtrObj s) name (VArr16 u)) s index
           (VString (uuid_canonical (arr16_list u))) w
         \<and> length (uuid_canonical (arr16_list u)) = 36"
proof -
  have sw: "coercion_switch lib w name (rtype field) TArr16 (VArr16 u)
              = SETVALUE (VString (uuid_canonical (arr16_list u))) w"
    by (simp add: assms(4) coercion_switch_def switch_String_def UUID_String_canonical)
  have "stores (SetField env lib w (PtrObj s) name (VArr16 u)) s index
           (VString (uuid_canonical (arr16_list u))) w"
    by (rule SetField_coerces [OF assms(1,2,3) _ _ sw]) (simp_all add: assms(4))
  then show ?thesis by (simp add: length_uuid_canonical)
qed

theorem SetField_uuid_into_string_witness:
  "SetField example_types example_lib example_world (PtrObj example_struct) ''Count''
       (VArr16 example_uuid)
     = Return (None,
               PtrObj (example_struct[1 := (example_struct ! 1)
                         \<lparr>fval := VString ''00112233-4455-6677-8899-aabbccddeeff''\<rparr>]),
               example_world)"
proof -
  have b1: "FieldByName example_types example_struct ''Count'' = Some [1]"
    by (rule FieldByName_example)
  have b2: "FieldByIndex example_types example_struct [1]
              = Return \<lparr>rtype = TString, rexported = True, rvalue = VString ''old''\<rparr>"
    by (rule FieldByIndex_example)
  have b3: "rexported \<lparr>rtype = TString, rexported = True, rvalue = VString ''old''\<rparr>" by simp
  have b4: "rtype \<lparr>rtype = TString, rexported = True, rvalue = VString ''old''\<rparr> = TString" by simp
  have canon: "uuid_canonical (arr16_list example_uuid) = ''00112233-4455-6677-8899-aabbccddeeff''"
    by (simp add: example_uuid_def uuid_canonical_def hex_byte_def hex_digit_def)
  from SetField_uuid_into_string [OF b1 b2 b3 b4, of example_lib example_world example_uuid]
  have "stores (SetField example_types example_lib example_world (PtrObj example_struct) ''Count''
                  (VArr16 example_uuid))
          example_struct [1] (VString (uuid_canonical (arr16_list example_uuid))) example_world"
    by (rule conjunct1)
  then show ?thesis by (simp only: canon stores_def set_at_top)
qed

section \<open>Parsing a timestamp\<close>

text \<open>
  C9. \<open>ParseUTCTime\<close> returns a time for every string and no error: it has no error
  result. It hands the string to \<open>time.Parse\<close> with the layout
  \<open>2006-01-02 15:04:05\<close>; when the parse succeeds the parsed time is returned, and
  when it fails, whatever the error, the zero \<open>time.Time\<close> is returned.
\<close>

theorem ParseUTCTime_swallows_errors:
  "ISOTimeFormat = ''2006-01-02 15:04:05''
   \<and> (\<forall>t. time_Parse lib ISOTimeFormat timeStr = Inr t \<longrightarrow> ParseUTCTime lib timeStr = t)
   \<and> (\<forall>err. time_Parse lib ISOTimeFormat timeStr = Inl err \<longrightarrow> ParseUTCTime lib timeStr = zero_Time)"
  by (simp add: ParseUTCTime_def ISOTimeFormat_def)

theorem ParseUTCTime_swallows_errors_witness:
  "ParseUTCTime example_lib ''2006-01-02 15:04:05'' = reference_Time
   \<and> ParseUTCTime example_lib ''31/12/2006'' = zero_Time"
proof -
  have ok: "time_Parse example_lib ISOTimeFormat ''2006-01-02 15:04:05'' = Inr reference_Time"
    by (simp add: example_lib_def ISOTimeFormat_def)
  have bad: "time_Parse example_lib ISOTimeFormat ''31/12/2006'' = Inl ''parsing time: cannot parse''"
    by (simp add: example_lib_def ISOTimeFormat_def)
  from ParseUTCTime_swallows_errors [of example_lib "''2006-01-02 15:04:05''"] ok
  have "ParseUTCTime example_lib ''2006-01-02 15:04:05'' = reference_Time" by blast
  moreover
  from ParseUTCTime_swallows_errors [of example_lib "''31/12/2006''"] bad
  have "ParseUTCTime example_lib ''31/12/2006'' = zero_Time" by blast
  ultimately show ?thesis by (rule conjI)
qed


section \<open>Batches of writes\<close>

lemma last_error_Cons:
  "last_error (e # es) = (case last_error es of None \<Rightarrow> e | Some e' \<Rightarrow> Some e')"
proof (cases "filter (\<lambda>e. e \<noteq> None) es = []")
  case True
  then show ?thesis by (cases e) (simp_all add: last_error_def)
next
  case False
  then have "last (filter (\<lambda>e. e \<noteq> None) es) \<in> set (filter (\<lambda>e. e \<noteq> None) es)"
    by (rule last_in_set)
  then obtain e' where "last (filter (\<lambda>e. e \<noteq> None) es) = Some e'" by auto
  with False show ?thesis by (simp add: last_error_def)
qed

lemma last_error_Nil: "last_error [] = None"
  by (simp add: last_error_def)

lemma last_error_in: "last_error es = Some e \<Longrightarrow> Some e \<in> set es"
proof -
  assume a: "last_error es = Some e"
  then have ne: "filter (\<lambda>e. e \<noteq> None) es \<noteq> []"
    by (auto simp: last_error_def Let_def split: if_splits)
  with a have "last (filter (\<lambda>e. e \<noteq> None) es) = Some e"
    by (simp add: last_error_def)
  with last_in_set [OF ne] show ?thesis by simp
qed

lemma SetFields_loop_eq:
  "i + length names \<le> length vals \<Longrightarrow>
   SetFields_loop env lib i names vals err obj w =
     (case apply_pairs env lib w obj (zip names (drop i vals)) of
        Panic \<Rightarrow> Panic
      | Return (es, obj', w') \<Rightarrow>
          Return (case last_error es of None \<Rightarrow> err | Some e \<Rightarrow> Some e, obj', w'))"
proof (induction names arbitrary: i err obj w)
  case Nil
  then show ?case by (simp add: last_error_Nil)
next
  case (Cons n ns)
  then have i: "i < length vals" and rest: "Suc i + length ns \<le> length vals" by simp_all
  from i have d: "drop i vals = vals ! i # drop (Suc i) vals"
    by (simp add: Cons_nth_drop_Suc)
  show ?case
  proof (cases "SetField env lib w obj n (vals ! i)")
    case Panic
    then show ?thesis by (simp add: d)
  next
    case (Return r)
    obtain errTmp obj' w' where r: "r = (errTmp, obj', w')" by (cases r) auto
    show ?thesis
    proof (cases "apply_pairs env lib w' obj' (zip ns (drop (Suc i) vals))")
      case Panic
      with Return r Cons.IH [OF rest] show ?thesis by (simp add: d)
    next
      case (Return q)
      obtain es obj'' w'' where q: "q = (es, obj'', w'')" by (cases q) auto
      from \<open>SetField env lib w obj n (vals ! i) = Return r\<close> r Return q Cons.IH [OF rest]
      show ?thesis
        by (cases "last_error es"; cases errTmp) (simp_all add: d last_error_Cons)
    qed
  qed
qed

lemma SetFields_eq_batch:
  assumes "length names \<le> length vals"
  shows "SetFields env lib w obj names vals = batch_result env lib w obj (zip names vals)"
proof -
  from assms have "0 + length names \<le> length vals" by simp
  from SetFields_loop_eq [OF this, of env lib None obj w] assms show ?thesis
    by (simp add: SetFields_def batch_result_def split: outcome.splits option.splits)
qed

lemma length_apply_pairs:
  "apply_pairs env lib w obj ps = Return (es, obj', w') \<Longrightarrow> length es = length ps"
proof (induction ps arbitrary: w obj es)
  case Nil
  then show ?case by simp
next
  case (Cons p ps)
  obtain n v where p: "p = (n, v)" by (cases p) auto
  from Cons.prems p obtain e obj1 w1 es1 where
    "SetField env lib w obj n v = Return (e, obj1, w1)"
    "apply_pairs env lib w1 obj1 ps = Return (es1, obj', w')" "es = e # es1"
    by (auto split: outcome.splits prod.splits)
  with Cons.IH [of w1 obj1 es1] show ?case by simp
qed

subsection \<open>The errors that SetField returns\<close>

lemma switch_String_ReturnErr:
  "switch_String lib w name vt v = ReturnErr e w' \<Longrightarrow> \<exists>m. e = MarshalError m"
  unfolding switch_String_def Let_def
  by (auto split: if_splits option.splits sum.splits)

lemma switch_Int32_ReturnErr: "switch_Int32 w vt v \<noteq> ReturnErr e w'"
  unfolding switch_Int32_def
  by (simp split: kind.splits option.splits)

lemma switch_Uint32_ReturnErr: "switch_Uint32 w vt v \<noteq> ReturnErr e w'"
  unfolding switch_Uint32_def
  by (simp split: kind.splits option.splits)

lemma coercion_switch_ReturnErr:
  "coercion_switch lib w name ft vt v = ReturnErr e w' \<Longrightarrow> \<exists>m. e = MarshalError m"
  unfolding coercion_switch_def
  by (cases "Kind ft")
     (simp_all add: switch_String_ReturnErr switch_Int32_ReturnErr switch_Uint32_ReturnErr)

lemma SetField_error_cases:
  assumes "SetField env lib w obj name v = Return (Some e, obj', w')"
  shows "e = NoSuchField name \<or> e = CannotSetField name
         \<or> (\<exists>ft vt. e = TypeMismatch name ft vt) \<or> (\<exists>m. e = MarshalError m)"
proof (cases "TypeOf v")
  case None
  with assms show ?thesis by (simp add: SetField_def)
next
  case (Some vt)
  show ?thesis
  proof (cases obj)
    case (PtrObj s)
    show ?thesis
    proof (cases "FieldByName env s name")
      case None
      with assms Some PtrObj show ?thesis by (simp add: SetField_def)
    next
      case index: (Some index)
      show ?thesis
      proof (cases "FieldByIndex env s index")
        case Panic
        with assms Some PtrObj index show ?thesis by (simp add: SetField_def)
      next
        case (Return field)
        show ?thesis
        proof (cases "coercion_switch lib w name (rtype field) vt v")
          case (ReturnErr e1 w1)
          from coercion_switch_ReturnErr [OF this] obtain m where "e1 = MarshalError m" ..
          with assms Some PtrObj index Return ReturnErr show ?thesis
            by (auto simp: SetField_def Set_field_def Let_def split: if_splits)
        qed (use assms Some PtrObj index Return in
            \<open>auto simp: SetField_def Set_field_def Let_def simp del: Error.simps split: if_splits\<close>)
      qed
    qed
  qed (use assms Some in \<open>simp_all add: SetField_def\<close>)
qed

lemma SetField_not_arity_error:
  "SetField env lib w obj name v \<noteq> Return (Some EfieldNameCountNotEqualToFieldValues, obj', w')"
  using SetField_error_cases [of env lib w obj name v EfieldNameCountNotEqualToFieldValues obj' w']
  by auto

lemma apply_pairs_not_arity_error:
  "apply_pairs env lib w obj ps = Return (es, obj', w') \<Longrightarrow>
   Some EfieldNameCountNotEqualToFieldValues \<notin> set es"
proof (induction ps arbitrary: w obj es)
  case Nil
  then show ?case by simp
next
  case (Cons p ps)
  obtain n v where p: "p = (n, v)" by (cases p) auto
  from Cons.prems p obtain e obj1 w1 es1 where
    sf: "SetField env lib w obj n v = Return (e, obj1, w1)"
    and ap: "apply_pairs env lib w1 obj1 ps = Return (es1, obj', w')" and es: "es = e # es1"
    by (auto split: outcome.splits prod.splits)
  from sf have "e \<noteq> Some EfieldNameCountNotEqualToFieldValues"
    using SetField_not_arity_error [of env lib w obj n v obj1 w1] by auto
  with Cons.IH [OF ap] es show ?case by simp
qed

subsection \<open>Worked calls on the example struct\<close>

lemma example_call_mismatch:
  "SetField env example_lib w (PtrObj example_struct) ''N'' (VString ''a'')
     = Return (Some (TypeMismatch ''N'' TInt32 TString), PtrObj example_struct,
               Println [''N'', Error (TypeMismatch ''N'' TInt32 TString)] w)"
  by (simp add: SetField_def FieldByName_example FieldByIndex_example CanSet_def
        coercion_switch_def switch_Int32_def Let_def del: Error.simps FieldByIndex.simps)

lemma example_call_missing:
  "SetField env example_lib w (PtrObj example_struct) ''Missing'' (VInt32 1)
     = Return (Some (NoSuchField ''Missing''), PtrObj example_struct, w)"
  by (simp add: SetField_def FieldByName_example)

lemma example_call_count:
  "SetField env example_lib w (PtrObj example_struct) ''Count'' (VInt64 5)
     = Return (None,
               PtrObj (example_struct[1 := (example_struct ! 1)\<lparr>fval := VString ''5''\<rparr>]), w)"
proof -
  have b1: "FieldByName env example_struct ''Count'' = Some [1]" by (rule FieldByName_example)
  have b2: "FieldByIndex env example_struct [1]
              = Return \<lparr>rtype = TString, rexported = True, rvalue = VString ''old''\<rparr>"
    by (rule FieldByIndex_example)
  have b3: "rexported \<lparr>rtype = TString, rexported = True, rvalue = VString ''old''\<rparr>" by simp
  have b4: "rtype \<lparr>rtype = TString, rexported = True, rvalue = VString ''old''\<rparr> = TString" by simp
  have f: "FormatInt (sint (5 :: 64 word)) = ''5''"
    by (simp add: FormatInt_def digits.simps digit_char_def)
  from SetField_int64_string_stores [OF b1 b2 b3 b4, of example_lib w 5]
  show ?thesis by (simp only: time_named_example if_False f stores_def set_at_top)
qed

text \<open>
  C2. With at least as many values as names, \<open>SetFields\<close> is the batch over the names
  paired with the values at their indices: \<open>SetField\<close> is called on every pair in
  order, a call that returns an error does not end the batch (one result per name is
  collected), and the error returned is that of the last call that failed, nil when no
  call failed; the errors of earlier calls are lost. Only a panic of \<open>SetField\<close>, which
  is not an error value, ends the batch and \<open>SetFields\<close> alike.
\<close>

theorem SetFields_returns_last_error:
  assumes "length fieldNames \<le> length fieldVals"
  shows "SetFields env lib w obj fieldNames fieldVals
           = batch_result env lib w obj (zip fieldNames fieldVals)
         \<and> (\<forall>es obj' w'. apply_pairs env lib w obj (zip fieldNames fieldVals) = Return (es, obj', w')
               \<longrightarrow> length es = length fieldNames)"
proof -
  have "length es = length fieldNames"
    if "apply_pairs env lib w obj (zip fieldNames fieldVals) = Return (es, obj', w')" for es obj' w'
    using length_apply_pairs [OF that] assms by simp
  with SetFields_eq_batch [OF assms] show ?thesis by blast
qed

theorem SetFields_returns_last_error_witness:
  "SetFields example_types example_lib example_world (PtrObj example_struct)
       [''N'', ''Missing'', ''Count''] [VString ''a'', VInt32 1, VInt64 5]
     = Return (Some (NoSuchField ''Missing''),
               PtrObj (example_struct[1 := (example_struct ! 1)\<lparr>fval := VString ''5''\<rparr>]),
               Println [''N'', Error (TypeMismatch ''N'' TInt32 TString)] example_world)"
proof -
  have h: "length [''N'', ''Missing'', ''Count''] \<le> length [VString ''a'', VInt32 1, VInt64 5]"
    by simp
  have "batch_result example_types example_lib example_world (PtrObj example_struct)
          (zip [''N'', ''Missing'', ''Count''] [VString ''a'', VInt32 1, VInt64 5])
        = Return (Some (NoSuchField ''Missing''),
               PtrObj (example_struct[1 := (example_struct ! 1)\<lparr>fval := VString ''5''\<rparr>]),
               Println [''N'', Error (TypeMismatch ''N'' TInt32 TString)] example_world)"
    by (simp add: batch_result_def example_call_mismatch example_call_missing example_call_count
          last_error_def del: Error.simps)
  with SetFields_returns_last_error [OF h, of example_types example_lib example_world "PtrObj example_struct"]
  show ?thesis by (simp only:)
qed

text \<open>
  C10. With more values than names, \<open>SetFields\<close> does not return
  \<open>EfieldNameCountNotEqualToFieldValues\<close>: it is the batch over the names paired with
  the values at their indices, and the values beyond the last name have no effect on
  the result.
\<close>

theorem SetFields_surplus_values_ignored:
  assumes "length fieldNames < length fieldVals"
  shows "SetFields env lib w obj fieldNames fieldVals
           = batch_result env lib w obj (zip fieldNames fieldVals)
         \<and> SetFields env lib w obj fieldNames fieldVals
           = SetFields env lib w obj fieldNames (take (length fieldNames) fieldVals)
         \<and> (\<forall>obj' w'. SetFields env lib w obj fieldNames fieldVals
               \<noteq> Return (Some EfieldNameCountNotEqualToFieldValues, obj', w'))"
proof -
  from assms have le: "length fieldNames \<le> length fieldVals" by simp
  have b: "SetFields env lib w obj fieldNames fieldVals
             = batch_result env lib w obj (zip fieldNames fieldVals)"
    by (rule SetFields_eq_batch [OF le])
  have le': "length fieldNames \<le> length (take (length fieldNames) fieldVals)"
    using le by simp
  have z: "zip fieldNames (take (length fieldNames) fieldVals) = zip fieldNames fieldVals"
    using take_zip [of "length fieldNames" fieldNames fieldVals] by simp
  have t: "SetFields env lib w obj fieldNames fieldVals
             = SetFields env lib w obj fieldNames (take (length fieldNames) fieldVals)"
    unfolding b SetFields_eq_batch [OF le'] z ..
  have n: "SetFields env lib w obj fieldNames fieldVals
             \<noteq> Return (Some EfieldNameCountNotEqualToFieldValues, obj', w')" for obj' w'
  proof
    assume "SetFields env lib w obj fieldNames fieldVals
              = Return (Some EfieldNameCountNotEqualToFieldValues, obj', w')"
    with b obtain es where
      ap: "apply_pairs env lib w obj (zip fieldNames fieldVals) = Return (es, obj', w')"
      and "last_error es = Some EfieldNameCountNotEqualToFieldValues"
      by (auto simp: batch_result_def split: outcome.splits prod.splits)
    from last_error_in [OF this(2)] apply_pairs_not_arity_error [OF ap]
    show False by simp
  qed
  from b t n show ?thesis by blast
qed

theorem SetFields_surplus_values_ignored_witness:
  "SetFields example_types example_lib example_world (PtrObj example_struct)
       [''Count''] [VInt64 5, VString ''surplus'']
     = Return (None,
               PtrObj (example_struct[1 := (example_struct ! 1)\<lparr>fval := VString ''5''\<rparr>]),
               example_world)"
proof -
  have h: "length [''Count''] < length [VInt64 5, VString ''surplus'']" by simp
  have "batch_result example_types example_lib example_world (PtrObj example_struct)
          (zip [''Count''] [VInt64 5, VString ''surplus''])
        = Return (None,
               PtrObj (example_struct[1 := (example_struct ! 1)\<lparr>fval := VString ''5''\<rparr>]),
               example_world)"
    by (simp add: batch_result_def example_call_count last_error_def)
  with SetFields_surplus_values_ignored [OF h, of example_types example_lib example_world "PtrObj example_struct"]
  show ?thesis by (simp only:)
qed



section \<open>What decides the value that is written\<close>

lemma TypeOf_None_iff: "TypeOf v = None \<longleftrightarrow> v = VNil"
  by (cases v) simp_all

lemma switch_String_det:
  assumes "switch_String lib w1 n1 vt v = SETVALUE val1 w1'"
    and "switch_String lib w2 n2 vt v = SETVALUE val2 w2'"
    and "(\<exists>x. v = VInt64 x) \<longrightarrow> time_named n1 = time_named n2"
  shows "val1 = val2"
proof (cases "\<exists>x. v = VInt64 x")
  case True
  with assms(3) have "time_named n1 = time_named n2" by simp
  with assms(1,2) show ?thesis
    unfolding switch_String_def Let_def time_named_def
    by (auto split: if_splits option.splits sum.splits)
next
  case False
  then have "as_int64 v = None" by (cases v) simp_all
  with assms(1,2) show ?thesis
    unfolding switch_String_def Let_def
    by (auto split: if_splits option.splits sum.splits)
qed

lemma switch_Int32_det:
  "switch_Int32 w1 vt v = SETVALUE val1 w1' \<Longrightarrow> switch_Int32 w2 vt v = SETVALUE val2 w2'
   \<Longrightarrow> val1 = val2"
  unfolding switch_Int32_def
  by (auto split: kind.splits option.splits)

lemma switch_Uint32_det:
  "switch_Uint32 w1 vt v = SETVALUE val1 w1' \<Longrightarrow> switch_Uint32 w2 vt v = SETVALUE val2 w2'
   \<Longrightarrow> val1 = val2"
  unfolding switch_Uint32_def
  by (auto split: kind.splits option.splits)

lemma coercion_switch_det:
  assumes "coercion_switch lib w1 n1 ft vt v = SETVALUE val1 w1'"
    and "coercion_switch lib w2 n2 ft vt v = SETVALUE val2 w2'"
    and "(\<exists>x. v = VInt64 x) \<and> Kind ft = KString \<longrightarrow> time_named n1 = time_named n2"
  shows "val1 = val2"
proof (cases "Kind ft = KString")
  case True
  with assms have "switch_String lib w1 n1 vt v = SETVALUE val1 w1'"
    "switch_String lib w2 n2 vt v = SETVALUE val2 w2'"
    "(\<exists>x. v = VInt64 x) \<longrightarrow> time_named n1 = time_named n2"
    by (simp_all add: coercion_switch_def)
  then show ?thesis by (rule switch_String_det)
next
  case False
  with assms(1,2) show ?thesis
    unfolding coercion_switch_def
    by (cases "Kind ft") (auto dest: switch_Int32_det switch_Uint32_det)
qed

lemma SetField_written:
  assumes "SetField env lib w (PtrObj s) name v = Return (None, obj', w')"
    and "FieldByName env s name = Some index" and "FieldByIndex env s index = Return field"
    and "TypeOf v = Some vt"
  shows "\<exists>val. obj' = PtrObj (set_at s index val)
           \<and> (if rtype field = vt then val = v
               else \<exists>w''. coercion_switch lib w name (rtype field) vt v = SETVALUE val w'')"
  using assms
  by (auto simp: SetField_def Set_field_def Let_def simp del: Error.simps
           split: if_splits exit.splits)

text \<open>
  C1, as stated, fails: the field name takes part. Two exported string fields of the
  same struct, \<open>StartTime\<close> and \<open>Count\<close>, given the same \<open>int64\<close> value 3661000000,
  receive \<open>01:01:01\<close> and \<open>3661000000\<close>.
\<close>

theorem SetField_written_value_depends_on_name:
  "FieldByIndex example_types example_struct [0]
     = Return \<lparr>rtype = TString, rexported = True, rvalue = VString ''old''\<rparr>
   \<and> FieldByIndex example_types example_struct [1]
     = Return \<lparr>rtype = TString, rexported = True, rvalue = VString ''old''\<rparr>
   \<and> SetField example_types example_lib example_world (PtrObj example_struct) ''StartTime''
       (VInt64 3661000000)
     = Return (None,
               PtrObj (example_struct[0 := (example_struct ! 0)\<lparr>fval := VString ''01:01:01''\<rparr>]),
               example_world)
   \<and> SetField example_types example_lib example_world (PtrObj example_struct) ''Count''
       (VInt64 3661000000)
     = Return (None,
               PtrObj (example_struct[1 := (example_struct ! 1)\<lparr>fval := VString ''3661000000''\<rparr>]),
               example_world)
   \<and> VString ''01:01:01'' \<noteq> VString ''3661000000''"
proof -
  have a1: "FieldByName example_types example_struct ''StartTime'' = Some [0]"
    by (rule FieldByName_example)
  have a2: "FieldByIndex example_types example_struct [0]
              = Return \<lparr>rtype = TString, rexported = True, rvalue = VString ''old''\<rparr>"
    by (rule FieldByIndex_example)
  have b1: "FieldByName example_types example_struct ''Count'' = Some [1]"
    by (rule FieldByName_example)
  have b2: "FieldByIndex example_types example_struct [1]
              = Return \<lparr>rtype = TString, rexported = True, rvalue = VString ''old''\<rparr>"
    by (rule FieldByIndex_example)
  have e: "rexported \<lparr>rtype = TString, rexported = True, rvalue = VString ''old''\<rparr>" by simp
  have t: "rtype \<lparr>rtype = TString, rexported = True, rvalue = VString ''old''\<rparr> = TString" by simp
  have c1: "SetField example_types example_lib example_world (PtrObj example_struct) ''StartTime''
       (VInt64 3661000000)
     = Return (None,
               PtrObj (example_struct[0 := (example_struct ! 0)\<lparr>fval := VString ''01:01:01''\<rparr>]),
               example_world)"
    using SetField_int64_string_stores [OF a1 a2 e t, of example_lib example_world 3661000000]
    by (simp only: time_named_example clock_of_usec_example if_True stores_def set_at_top)
  have c2: "SetField example_types example_lib example_world (PtrObj example_struct) ''Count''
       (VInt64 3661000000)
     = Return (None,
               PtrObj (example_struct[1 := (example_struct ! 1)\<lparr>fval := VString ''3661000000''\<rparr>]),
               example_world)"
    using SetField_int64_string_stores [OF b1 b2 e t, of example_lib example_world 3661000000]
    by (simp only: time_named_example FormatInt_example if_False stores_def set_at_top)
  have d: "VString ''01:01:01'' \<noteq> VString ''3661000000''" by simp
  from a2 b2 c1 c2 d show ?thesis by (simp only: simp_thms)
qed

text \<open>
  C1, amended. The value that a successful write stores is decided by the declared
  type of the field and the value given, and, only where an \<open>int64\<close> is written into a
  field of string kind, also by whether the field name contains \<open>Time\<close> or \<open>time\<close>:
  two calls of \<open>SetField\<close> that return nil, on fields of the same declared type, given
  the same non-nil value, leave the same value in their fields, provided that in the
  \<open>int64\<close>-into-string case the two names agree on containing \<open>Time\<close> or \<open>time\<close>;
  whatever the two structs hold, whatever else the two field names are, wherever the
  fields lie, and whatever the process state (the warning flag, the output so far) is
  at each call.
\<close>

theorem SetField_written_value_determined:
  assumes "FieldByName env s1 n1 = Some index1" and "FieldByIndex env s1 index1 = Return field1"
    and "FieldByName env s2 n2 = Some index2" and "FieldByIndex env s2 index2 = Return field2"
    and "rtype field1 = rtype field2"
    and "(\<exists>x. v = VInt64 x) \<and> Kind (rtype field1) = KString \<longrightarrow> time_named n1 = time_named n2"
    and "v \<noteq> VNil"
    and "SetField env lib w1 (PtrObj s1) n1 v = Return (None, PtrObj s1', w1')"
    and "SetField env lib w2 (PtrObj s2) n2 v = Return (None, PtrObj s2', w2')"
  shows "\<exists>written. FieldByIndex env s1' index1 = Return (field1\<lparr>rvalue := written\<rparr>)
                   \<and> FieldByIndex env s2' index2 = Return (field2\<lparr>rvalue := written\<rparr>)"
proof -
  from assms(7) obtain vt where vt: "TypeOf v = Some vt"
    by (cases "TypeOf v") (simp_all add: TypeOf_None_iff)
  from SetField_written [OF assms(8) assms(1) assms(2) vt] obtain val1 where
    s1': "s1' = set_at s1 index1 val1"
    and c1: "if rtype field1 = vt then val1 = v
             else \<exists>w''. coercion_switch lib w1 n1 (rtype field1) vt v = SETVALUE val1 w''"
    by auto
  from SetField_written [OF assms(9) assms(3) assms(4) vt] obtain val2 where
    s2': "s2' = set_at s2 index2 val2"
    and c2: "if rtype field2 = vt then val2 = v
             else \<exists>w''. coercion_switch lib w2 n2 (rtype field2) vt v = SETVALUE val2 w''"
    by auto
  have "val1 = val2"
  proof (cases "rtype field1 = vt")
    case True
    with c1 c2 assms(5) show ?thesis by simp
  next
    case False
    with c1 obtain wa where
      "coercion_switch lib w1 n1 (rtype field1) vt v = SETVALUE val1 wa" by auto
    moreover from False c2 assms(5) obtain wb where
      "coercion_switch lib w2 n2 (rtype field1) vt v = SETVALUE val2 wb" by auto
    ultimately show ?thesis using assms(6) by (rule coercion_switch_det)
  qed
  with s1' s2' FieldByIndex_set_at [OF assms(2), of val1] FieldByIndex_set_at [OF assms(4), of val2]
  show ?thesis by blast
qed

theorem SetField_written_value_determined_witness:
  "SetField example_types example_lib example_world (PtrObj example_struct) ''StartTime''
       (VInt64 3661000000)
     = Return (None, PtrObj (set_at example_struct [0] (VString ''01:01:01'')), example_world)
   \<and> SetField example_types example_lib quiet_world (PtrObj example_struct) ''EndTime''
       (VInt64 3661000000)
     = Return (None, PtrObj (set_at example_struct [5] (VString ''01:01:01'')), quiet_world)
   \<and> (\<exists>written.
         FieldByIndex example_types (set_at example_struct [0] (VString ''01:01:01'')) [0]
           = Return (\<lparr>rtype = TString, rexported = True, rvalue = VString ''old''\<rparr>
                       \<lparr>rvalue := written\<rparr>)
         \<and> FieldByIndex example_types (set_at example_struct [5] (VString ''01:01:01'')) [5]
           = Return (\<lparr>rtype = TString, rexported = True, rvalue = VString ''old''\<rparr>
                       \<lparr>rvalue := written\<rparr>))"
proof -
  have a1: "FieldByName example_types example_struct ''StartTime'' = Some [0]"
    by (rule FieldByName_example)
  have a2: "FieldByIndex example_types example_struct [0]
              = Return \<lparr>rtype = TString, rexported = True, rvalue = VString ''old''\<rparr>"
    by (rule FieldByIndex_example)
  have b1: "FieldByName example_types example_struct ''EndTime'' = Some [5]"
    by (rule FieldByName_example)
  have b2: "FieldByIndex example_types example_struct [5]
              = Return \<lparr>rtype = TString, rexported = True, rvalue = VString ''old''\<rparr>"
    by (rule FieldByIndex_example)
  have e: "rexported \<lparr>rtype = TString, rexported = True, rvalue = VString ''old''\<rparr>" by simp
  have t: "rtype \<lparr>rtype = TString, rexported = True, rvalue = VString ''old''\<rparr> = TString" by simp
  have ty: "rtype \<lparr>rtype = TString, rexported = True, rvalue = VString ''old''\<rparr>
            = rtype \<lparr>rtype = TString, rexported = True, rvalue = VString ''old''\<rparr>" by simp
  have n: "(\<exists>x. VInt64 3661000000 = VInt64 x)
           \<and> Kind (rtype \<lparr>rtype = TString, rexported = True, rvalue = VString ''old''\<rparr>) = KString
           \<longrightarrow> time_named ''StartTime'' = time_named ''EndTime''"
    by (simp add: time_named_example)
  have v: "VInt64 3661000000 \<noteq> VNil" by simp
  have c1: "SetField example_types example_lib example_world (PtrObj example_struct) ''StartTime''
       (VInt64 3661000000)
     = Return (None, PtrObj (set_at example_struct [0] (VString ''01:01:01'')), example_world)"
    using SetField_int64_string_stores [OF a1 a2 e t, of example_lib example_world 3661000000]
    by (simp only: time_named_example clock_of_usec_example if_True stores_def)
  have c2: "SetField example_types example_lib quiet_world (PtrObj example_struct) ''EndTime''
       (VInt64 3661000000)
     = Return (None, PtrObj (set_at example_struct [5] (VString ''01:01:01'')), quiet_world)"
    using SetField_int64_string_stores [OF b1 b2 e t, of example_lib quiet_world 3661000000]
    by (simp only: time_named_example clock_of_usec_example if_True stores_def)
  from SetField_written_value_determined [OF a1 a2 b1 b2 ty n v c1 c2] c1 c2
  show ?thesis by (simp only: simp_thms)
qed


end
